theory Spec2Isabelle
  imports Complex_Main "HOL-Library.Sublist"
begin

section \<open>Configuration\<close>

text \<open>
  The four entries of \<^verbatim>\<open>app.config\<close> (api/app.py, lines 24-28). Python numbers are
  modelled exactly: integers as \<open>int\<close>/\<open>nat\<close>, floats (the video duration, the aspect
  ratios, the results of \<^verbatim>\<open>/\<close>) as rationals. For the configured target 1080x1920 the
  aspect ratio 0.5625 is a dyadic rational, so the float operations of the source are
  exact on every realistic frame size and duration.
\<close>

record config =
  SHORT_VIDEO_WIDTH :: int
  SHORT_VIDEO_HEIGHT :: int
  CLIP_DURATION_SECONDS :: rat
  NUM_CLIPS_TO_GENERATE :: nat

definition app_config :: config where
  "app_config = \<lparr>SHORT_VIDEO_WIDTH = 1080, SHORT_VIDEO_HEIGHT = 1920,
     CLIP_DURATION_SECONDS = 27, NUM_CLIPS_TO_GENERATE = 5\<rparr>"

section \<open>Segment windows (generate\_short\_clips\_to\_temp, lines 115-127)\<close>

text \<open>
  One pass of the loop header: the candidate window of clip \<open>i\<close>, the two \<^verbatim>\<open>break\<close>s and
  the clamping of \<^verbatim>\<open>end_time\<close>.
\<close>

datatype window = ReachedEnd | TooShort rat | Segment rat rat

definition clip_window :: "rat \<Rightarrow> rat \<Rightarrow> nat \<Rightarrow> window" where
  "clip_window video_duration clip_duration i =
     (let start_time = of_nat i * clip_duration;
          end_time = start_time + clip_duration
      in if start_time \<ge> video_duration then ReachedEnd
         else if end_time > video_duration then
           (if video_duration - start_time < clip_duration / 2
            then TooShort (video_duration - start_time)
            else Segment start_time video_duration)
         else Segment start_time end_time)"

text \<open>
  The windows for which the loop over \<^verbatim>\<open>range(num_clips)\<close> goes on to build a clip: the
  loop stops at the first \<^verbatim>\<open>break\<close>.
\<close>

fun plan_loop :: "rat \<Rightarrow> rat \<Rightarrow> nat list \<Rightarrow> (rat \<times> rat) list" where
  "plan_loop video_duration clip_duration [] = []"
| "plan_loop video_duration clip_duration (i # is) =
     (case clip_window video_duration clip_duration i of
        ReachedEnd \<Rightarrow> []
      | TooShort d \<Rightarrow> []
      | Segment start_time end_time \<Rightarrow>
          (start_time, end_time) # plan_loop video_duration clip_duration is)"

definition plan :: "rat \<Rightarrow> rat \<Rightarrow> nat \<Rightarrow> (rat \<times> rat) list" where
  "plan video_duration clip_duration num_clips =
     plan_loop video_duration clip_duration [0..<num_clips]"


section \<open>Frame geometry (lines 113, 131-142)\<close>

text \<open>
  The clips that moviepy builds lazily are kept as the expression the source builds:
  \<^verbatim>\<open>full_clip.subclip(..)\<close>, then \<^verbatim>\<open>.crop(x_center=.., width=..)\<close> or
  \<^verbatim>\<open>.crop(y_center=.., height=..)\<close>, then \<^verbatim>\<open>.resize((W, H))\<close>.
\<close>

datatype clip =
    FullClip int int
  | Subclip rat rat clip
  | CropX rat int clip
  | CropY rat int clip
  | Resize int int clip

text \<open>Python's \<^verbatim>\<open>int(x)\<close> on a float truncates towards zero.\<close>

definition py_int :: "rat \<Rightarrow> int" where
  "py_int x = (if x \<ge> 0 then \<lfloor>x\<rfloor> else \<lceil>x\<rceil>)"

text \<open>
  The frame size of a clip (\<^verbatim>\<open>clip.w\<close>, \<^verbatim>\<open>clip.h\<close>) and the crop rectangle
  \<open>(x1, y1, x2, y2)\<close> moviepy derives from a centre and an extent: \<open>x1 = x_center - width/2\<close>,
  \<open>x2 = x1 + width\<close>, and the frame is sliced at \<open>int(x1)\<close>, \<open>int(x2)\<close>.
\<close>

fun clip_size :: "clip \<Rightarrow> int \<times> int" where
  "clip_size (FullClip w h) = (w, h)"
| "clip_size (Subclip a b c) = clip_size c"
| "clip_size (CropX xc width c) =
     (py_int (xc - of_int width / 2 + of_int width) - py_int (xc - of_int width / 2),
      snd (clip_size c))"
| "clip_size (CropY yc height c) =
     (fst (clip_size c),
      py_int (yc - of_int height / 2 + of_int height) - py_int (yc - of_int height / 2))"
| "clip_size (Resize w h c) = (w, h)"


text \<open>
  Line 113: \<^verbatim>\<open>target_aspect = W / H\<close>; a zero height raises ZeroDivisionError, which
  nothing in generate\_short\_clips\_to\_temp catches. Uncaught exceptions are carried as
  \<open>Inl\<close> of their message.
\<close>

definition target_aspect_of :: "config \<Rightarrow> string + rat" where
  "target_aspect_of cfg =
     (if SHORT_VIDEO_HEIGHT cfg = 0 then Inl ''division by zero''
      else Inr (of_int (SHORT_VIDEO_WIDTH cfg) / of_int (SHORT_VIDEO_HEIGHT cfg)))"

text \<open>Lines 133-142: crop to the target aspect, then resize to the target size.\<close>

definition process_clip :: "config \<Rightarrow> rat \<Rightarrow> clip \<Rightarrow> string + clip" where
  "process_clip cfg target_aspect sub_clip =
     (let w = fst (clip_size sub_clip); h = snd (clip_size sub_clip)
      in if h = 0 then Inl ''division by zero''
         else if of_int w / of_int h > target_aspect then
           Inr (Resize (SHORT_VIDEO_WIDTH cfg) (SHORT_VIDEO_HEIGHT cfg)
                 (CropX (of_int w / 2) (py_int (of_int h * target_aspect)) sub_clip))
         else if of_int w / of_int h < target_aspect then
           (if target_aspect = 0 then Inl ''float division by zero''
            else Inr (Resize (SHORT_VIDEO_WIDTH cfg) (SHORT_VIDEO_HEIGHT cfg)
                 (CropY (of_int h / 2) (py_int (of_int w / target_aspect)) sub_clip)))
         else Inr (Resize (SHORT_VIDEO_WIDTH cfg) (SHORT_VIDEO_HEIGHT cfg) sub_clip))"

section \<open>Strings\<close>

text \<open>
  Strings are lists of ASCII characters. The helpers below are the library functions the
  source calls (\<^verbatim>\<open>in\<close>, \<^verbatim>\<open>split\<close>, \<^verbatim>\<open>strip\<close>, \<^verbatim>\<open>splitlines\<close>, \<^verbatim>\<open>os.path.basename\<close>,
  \<^verbatim>\<open>os.path.join\<close>, and the formatting of numbers in f-strings), on ASCII text and POSIX
  paths.
\<close>

definition nl :: string where
  "nl = [CHR 0x0A]"

definition apostrophe :: string where
  "apostrophe = [CHR 0x27]"

definition digit_char :: "nat \<Rightarrow> char" where
  "digit_char d = ''0123456789'' ! d"

function show_nat :: "nat \<Rightarrow> string" where
  "show_nat n = (if n < 10 then [digit_char n] else show_nat (n div 10) @ [digit_char (n mod 10)])"
  by pat_completeness auto
termination
  by (relation "measure id") auto

definition show_int :: "int \<Rightarrow> string" where
  "show_int i = (if i < 0 then ''-'' @ show_nat (nat (- i)) else show_nat (nat i))"

text \<open>The format \<^verbatim>\<open>:.2f\<close>: two decimals, ties to even.\<close>

definition round_half_even :: "rat \<Rightarrow> int" where
  "round_half_even x =
     (let f = \<lfloor>x\<rfloor>; d = x - of_int f
      in if d < 1 / 2 then f else if d > 1 / 2 then f + 1 else if even f then f else f + 1)"

definition fmt_2f :: "rat \<Rightarrow> string" where
  "fmt_2f x =
     (let a = nat \<bar>round_half_even (x * 100)\<bar>
      in (if x < 0 then ''-'' else []) @ show_nat (a div 100) @ ''.''
           @ [digit_char (a mod 100 div 10), digit_char (a mod 10)])"

text \<open>\<^verbatim>\<open>sep in s\<close>, and the two halves of \<^verbatim>\<open>s.split(sep)[1]\<close>.\<close>

fun after_first :: "string \<Rightarrow> string \<Rightarrow> string option" where
  "after_first sep [] = (if sep = [] then Some [] else None)"
| "after_first sep (c # s) =
     (if prefix sep (c # s) then Some (drop (length sep) (c # s)) else after_first sep s)"

fun before_first :: "string \<Rightarrow> string \<Rightarrow> string" where
  "before_first sep [] = []"
| "before_first sep (c # s) = (if prefix sep (c # s) then [] else c # before_first sep s)"

definition contains :: "string \<Rightarrow> string \<Rightarrow> bool" where
  "contains sep s = (after_first sep s \<noteq> None)"

definition split_second :: "string \<Rightarrow> string \<Rightarrow> string" where
  "split_second sep s = (case after_first sep s of None \<Rightarrow> [] | Some r \<Rightarrow> before_first sep r)"

definition is_space :: "char \<Rightarrow> bool" where
  "is_space c = (c \<in> set [CHR 0x20, CHR 0x09, CHR 0x0A, CHR 0x0D, CHR 0x0B, CHR 0x0C,
                            CHR 0x1C, CHR 0x1D, CHR 0x1E, CHR 0x1F])"

definition strip :: "string \<Rightarrow> string" where
  "strip s = rev (dropWhile is_space (rev (dropWhile is_space s)))"

definition is_linebreak :: "char \<Rightarrow> bool" where
  "is_linebreak c = (c \<in> set [CHR 0x0A, CHR 0x0D, CHR 0x0B, CHR 0x0C, CHR 0x1C, CHR 0x1D, CHR 0x1E])"

fun splitlines_from :: "string \<Rightarrow> string \<Rightarrow> string list" where
  "splitlines_from cur [] = (if cur = [] then [] else [cur])"
| "splitlines_from cur [c] = (if is_linebreak c then [cur] else [cur @ [c]])"
| "splitlines_from cur (c # d # s) =
     (if c = CHR 0x0D \<and> d = CHR 0x0A then cur # splitlines_from [] s
      else if is_linebreak c then cur # splitlines_from [] (d # s)
      else splitlines_from (cur @ [c]) (d # s))"

definition splitlines :: "string \<Rightarrow> string list" where
  "splitlines s = splitlines_from [] s"

definition basename :: "string \<Rightarrow> string" where
  "basename p = rev (takeWhile (\<lambda>c. c \<noteq> CHR ''/'') (rev p))"

definition path_join :: "string \<Rightarrow> string \<Rightarrow> string" where
  "path_join a b =
     (if prefix ''/'' b then b
      else if a = [] \<or> last a = CHR ''/'' then a @ b
      else a @ ''/'' @ b)"

section \<open>The world: progress queue, temporary files, pipeline steps\<close>

text \<open>
  What \<^verbatim>\<open>log_queue\<close> holds and what \<^verbatim>\<open>jsonify\<close> returns: strings, lists and dicts
  (a dict literal is the list of its items, in order).
\<close>

datatype jval = JStr string | JList "jval list" | JDict "(string \<times> jval) list"

text \<open>The steps of a job that reach outside the process, in the order they are made.\<close>

datatype step =
    RunCommand "string list"
  | WriteVideofile nat clip string
  | Upload string
  | Remove string

record world =
  log_queue :: "jval list"
  files :: "string set"
  steps :: "step list"
  threads :: "string list"

text \<open>
  What the collaborators answer during one job: the temporary directory, the clock, yt-dlp,
  the directory scan, moviepy's loader and encoder, the blob store and the file system's
  refusals.
\<close>

datatype proc_result =
    Completed string
  | CalledProcessError int string string
  | FileNotFoundError
  | OtherError string

datatype load_result = LoadError string | Loaded rat int int

datatype put_result = PutOk string | PutError string

record env =
  tempdir :: string
  download_timestamp :: string
  subprocess_run :: proc_result
  glob_sorted :: "string list"
  VideoFileClip :: "string \<Rightarrow> load_result"
  clip_timestamp :: "nat \<Rightarrow> string"
  write_videofile :: "nat \<Rightarrow> string option"
  vercel_put :: "string \<Rightarrow> put_result"
  remove_error :: "string \<Rightarrow> string option"

section \<open>Helper functions (lines 34-50)\<close>

definition queue_put :: "jval \<Rightarrow> world \<Rightarrow> world" where
  "queue_put item w = w\<lparr>log_queue := log_queue w @ [item]\<rparr>"

text \<open>\<^verbatim>\<open>log_message\<close>: the line also goes to standard output, which is not modelled.\<close>

definition log_message :: "string \<Rightarrow> world \<Rightarrow> world" where
  "log_message message w = queue_put (JStr message) w"

text \<open>Several \<^verbatim>\<open>log_message\<close> calls in a row.\<close>

fun log_messages :: "string list \<Rightarrow> world \<Rightarrow> world" where
  "log_messages [] w = w"
| "log_messages (m # ms) w = log_messages ms (log_message m w)"

definition record_step :: "step \<Rightarrow> world \<Rightarrow> world" where
  "record_step s w = w\<lparr>steps := steps w @ [s]\<rparr>"

definition run_subprocess_command ::
    "string list \<Rightarrow> string \<Rightarrow> env \<Rightarrow> world \<Rightarrow> (string + string option) \<times> world" where
  "run_subprocess_command cmd_list error_msg_prefix e w =
     (let w1 = record_step (RunCommand cmd_list) w
      in case subprocess_run e of
           Completed out \<Rightarrow> (Inr (Some out), w1)
         | CalledProcessError returncode out err \<Rightarrow>
             (Inr None,
              log_messages
                [error_msg_prefix @ '' (command exited with code '' @ show_int returncode @ ''):'',
                 ''STDOUT: '' @ out,
                 ''STDERR: '' @ err] w1)
         | FileNotFoundError \<Rightarrow>
             (Inr None,
              log_messages
                [''Error: Command '' @ apostrophe @ hd cmd_list @ apostrophe @ '' not found.'',
                 ''Please ensure '' @ hd cmd_list @ '' is installed and in your system''
                   @ apostrophe @ ''s PATH on Vercel'' @ apostrophe @ ''s build environment.''] w1)
         | OtherError msg \<Rightarrow> (Inl msg, w1))"

section \<open>download\_youtube\_video\_to\_temp (lines 52-95)\<close>

definition not_confirmed :: "string option \<Rightarrow> string" where
  "not_confirmed downloaded_filepath =
     ''Warning: Downloaded file path '' @ apostrophe
       @ (case downloaded_filepath of None \<Rightarrow> ''None'' | Some p \<Rightarrow> p) @ apostrophe
       @ '' not confirmed to exist in temp dir.''"

text \<open>Lines 84-95: the scan of the temporary directory.\<close>

definition download_fallback :: "string option \<Rightarrow> env \<Rightarrow> world \<Rightarrow> string option \<times> world" where
  "download_fallback downloaded_filepath e w =
     (let w1 = log_message (''Could not precisely determine downloaded filename from yt-dlp ''
                  @ ''output. Searching temp directory...'') w
      in case glob_sorted e of
           [] \<Rightarrow> (None, log_message (not_confirmed downloaded_filepath) w1)
         | found # others \<Rightarrow>
             (let w2 = log_message (''Download complete (found via temp dir scan)! Temp file at: ''
                          @ found) w1
              in if found \<in> files w2 then (Some found, w2)
                 else (None, log_message (not_confirmed (Some found)) w2)))"

definition ytdlp_command :: "string \<Rightarrow> string \<Rightarrow> string \<Rightarrow> string list" where
  "ytdlp_command youtube_url temp_dir timestamp =
     [''yt-dlp'', ''-f'', ''bestvideo[ext=mp4]+bestaudio[ext=m4a]/best[ext=mp4]'',
      ''-o'', path_join temp_dir (''full_video_'' @ timestamp @ ''.%(ext)s''),
      ''--no-part'', youtube_url]"

definition download_youtube_video_to_temp ::
    "string \<Rightarrow> string \<Rightarrow> env \<Rightarrow> world \<Rightarrow> (string + string option) \<times> world" where
  "download_youtube_video_to_temp youtube_url temp_dir e w =
     (let timestamp = download_timestamp e;
          cmd = ytdlp_command youtube_url temp_dir timestamp;
          w1 = log_messages
                 [nl @ ''--- Downloading YouTube video from: '' @ youtube_url @ '' ---'',
                  ''Saving temporarily to: '' @ temp_dir] w
      in case run_subprocess_command cmd ''Error downloading video with yt-dlp'' e w1 of
           (Inl err, w2) \<Rightarrow> (Inl err, w2)
         | (Inr None, w2) \<Rightarrow> (Inr None, w2)
         | (Inr (Some stdout_output), w2) \<Rightarrow>
             (case find (contains ''Destination:'') (splitlines stdout_output) of
                None \<Rightarrow>
                  (let (r, w3) = download_fallback None e w2 in (Inr r, w3))
              | Some line \<Rightarrow>
                  (let downloaded_filepath =
                         path_join temp_dir (basename (strip (split_second ''Destination:'' line)))
                   in if downloaded_filepath \<in> files w2
                      then (Inr (Some downloaded_filepath),
                            log_message (''Download complete! Temp file at: ''
                                           @ downloaded_filepath) w2)
                      else (let (r, w3) = download_fallback (Some downloaded_filepath) e w2
                            in (Inr r, w3)))))"

section \<open>generate\_short\_clips\_to\_temp (lines 97-164)\<close>

definition clip_path :: "env \<Rightarrow> string \<Rightarrow> nat \<Rightarrow> string" where
  "clip_path e temp_output_dir i =
     path_join temp_output_dir
       (''short_clip_'' @ show_nat (i + 1) @ ''_'' @ clip_timestamp e i @ ''.mp4'')"

text \<open>
  A \<^verbatim>\<open>for\<close> loop over a list, with the variables the body updates: the body goes on to the
  next item, leaves the loop with \<^verbatim>\<open>break\<close>, or raises.
\<close>

datatype 'a flow = Continue 'a | Break 'a | Raise string

fun for_loop ::
    "('i \<Rightarrow> 'a \<Rightarrow> world \<Rightarrow> 'a flow \<times> world) \<Rightarrow> 'i list \<Rightarrow> 'a \<Rightarrow> world \<Rightarrow> (string + 'a) \<times> world" where
  "for_loop body [] vars w = (Inr vars, w)"
| "for_loop body (i # rest) vars w =
     (case body i vars w of
        (Continue vars', w') \<Rightarrow> for_loop body rest vars' w'
      | (Break vars', w') \<Rightarrow> (Inr vars', w')
      | (Raise err, w') \<Rightarrow> (Inl err, w'))"

text \<open>
  The body of the loop of lines 115-161, on the list of generated paths and the counter.
  A rendering error is logged and the loop goes on; an exception of the geometry step is
  not caught here.
\<close>

definition clip_body ::
    "config \<Rightarrow> env \<Rightarrow> clip \<Rightarrow> rat \<Rightarrow> rat \<Rightarrow> rat \<Rightarrow> string \<Rightarrow> nat \<Rightarrow> string list \<times> nat
       \<Rightarrow> world \<Rightarrow> (string list \<times> nat) flow \<times> world" where
  "clip_body cfg e full_clip video_duration target_aspect clip_duration temp_output_dir i vars w =
     (case vars of (generated_temp_clip_paths, generated_clips_count) \<Rightarrow>
      case clip_window video_duration clip_duration i of
        ReachedEnd \<Rightarrow>
          (Break vars,
           log_message (''Reached end of video. Generated '' @ show_nat generated_clips_count
                          @ '' clips.'') w)
      | TooShort remaining \<Rightarrow>
          (Break vars,
           log_message (''Remaining video segment ('' @ fmt_2f remaining
                          @ ''s) is too short. Stopping.'') w)
      | Segment start_time end_time \<Rightarrow>
          (let w1 = log_message (''Generating clip '' @ show_nat (i + 1) @ '' from ''
                       @ fmt_2f start_time @ ''s to '' @ fmt_2f end_time @ ''s...'') w;
               sub_clip = Subclip start_time end_time full_clip
           in case process_clip cfg target_aspect sub_clip of
                Inl err \<Rightarrow> (Raise err, w1)
              | Inr processed_clip \<Rightarrow>
                  (let output_filepath = clip_path e temp_output_dir i;
                       w2 = log_message (''Rendering clip '' @ show_nat (i + 1) @ '' to: ''
                              @ output_filepath) w1;
                       w3 = record_step (WriteVideofile i processed_clip output_filepath) w2
                   in case write_videofile e i of
                        None \<Rightarrow>
                          (Continue (generated_temp_clip_paths @ [output_filepath],
                                     generated_clips_count + 1),
                           log_message (''Clip '' @ show_nat (i + 1)
                                 @ '' generated successfully (temp)! '' @ output_filepath)
                               (w3\<lparr>files := insert output_filepath (files w3)\<rparr>))
                      | Some err \<Rightarrow>
                          (Continue vars,
                           log_messages
                               [''Error rendering clip '' @ show_nat (i + 1) @ '': '' @ err,
                                ''This often indicates an issue with FFmpeg or specific video ''
                                  @ ''codec problems during MoviePy rendering.''] w3))))"

definition generate_short_clips_to_temp ::
    "config \<Rightarrow> string \<Rightarrow> rat \<Rightarrow> nat \<Rightarrow> string \<Rightarrow> env \<Rightarrow> world \<Rightarrow> (string + string list) \<times> world" where
  "generate_short_clips_to_temp cfg video_path clip_duration num_clips temp_output_dir e w =
     (let w1 = log_message (nl @ ''--- Processing video: '' @ basename video_path @ '' ---'') w
      in case VideoFileClip e video_path of
           LoadError err \<Rightarrow>
             (Inr [],
              log_messages
                [''Error loading full video clip from '' @ video_path @ '': '' @ err,
                 ''This might be due to a corrupted download or an unsupported video format.''] w1)
         | Loaded video_duration width height \<Rightarrow>
             (let w2 = log_message (''Full video duration: '' @ fmt_2f video_duration
                          @ '' seconds.'') w1
              in case target_aspect_of cfg of
                   Inl err \<Rightarrow> (Inl err, w2)
                 | Inr target_aspect \<Rightarrow>
                     (case for_loop
                             (clip_body cfg e (FullClip width height) video_duration
                                target_aspect clip_duration temp_output_dir)
                             [0..<num_clips] ([], 0) w2 of
                        (Inl err, w3) \<Rightarrow> (Inl err, w3)
                      | (Inr (generated_temp_clip_paths, generated_clips_count), w3) \<Rightarrow>
                          (Inr generated_temp_clip_paths,
                           log_message (nl @ ''--- Finished generating ''
                              @ show_nat generated_clips_count @ '' temporary clips. ---'') w3))))"

section \<open>upload\_to\_vercel\_blob (lines 166-182) and os.remove\<close>

definition upload_to_vercel_blob :: "string \<Rightarrow> env \<Rightarrow> world \<Rightarrow> string option \<times> world" where
  "upload_to_vercel_blob local_filepath e w =
     (let w0 = record_step (Upload local_filepath) w
      in if local_filepath \<notin> files w0 then
           (None, log_message (''Error: Local file '' @ apostrophe @ local_filepath @ apostrophe
                                 @ '' not found for upload to Vercel Blob.'') w0)
         else
           (let blob_path = ''clips/'' @ basename local_filepath;
                w1 = log_message (''Uploading '' @ apostrophe @ basename local_filepath
                        @ apostrophe @ '' to Vercel Blob...'') w0
            in case vercel_put e blob_path of
                 PutOk url \<Rightarrow> (Some url, log_message (''Uploaded to Vercel Blob: '' @ url) w1)
               | PutError err \<Rightarrow>
                   (None, log_message (''Error uploading '' @ apostrophe @ local_filepath
                            @ apostrophe @ '' to Vercel Blob: '' @ err) w1)))"

text \<open>
  \<^verbatim>\<open>os.remove\<close> inside \<^verbatim>\<open>try ... except OSError\<close>: a missing file and a refusal of the file
  system are both OSErrors; the function returns the error message, if any.
\<close>

definition os_remove :: "string \<Rightarrow> env \<Rightarrow> world \<Rightarrow> string option \<times> world" where
  "os_remove path e w =
     (let w1 = record_step (Remove path) w
      in if path \<notin> files w1 then
           (Some (''[Errno 2] No such file or directory: '' @ apostrophe @ path @ apostrophe), w1)
         else case remove_error e path of
                Some err \<Rightarrow> (Some err, w1)
              | None \<Rightarrow> (None, w1\<lparr>files := files w1 - {path}\<rparr>))"

definition remove_and_log :: "string \<Rightarrow> string \<Rightarrow> string \<Rightarrow> env \<Rightarrow> world \<Rightarrow> world" where
  "remove_and_log path done_prefix failed_prefix e w =
     (case os_remove path e w of
        (None, w1) \<Rightarrow> log_message (done_prefix @ path) w1
      | (Some err, w1) \<Rightarrow> log_message (failed_prefix @ path @ '': '' @ err) w1)"

section \<open>process\_video\_task (lines 184-235)\<close>

definition failed_record :: "string \<Rightarrow> jval" where
  "failed_record message = JDict [(''status'', JStr ''failed''), (''message'', JStr message)]"

definition completed_record :: "string list \<Rightarrow> jval" where
  "completed_record blob_urls =
     JDict [(''status'', JStr ''completed''), (''clips'', JList (map JStr blob_urls))]"

definition error_record :: "string \<Rightarrow> jval" where
  "error_record message = JDict [(''status'', JStr ''error''), (''message'', JStr message)]"

text \<open>Lines 210-219: upload each clip, then remove its temporary file.\<close>

definition upload_body :: "env \<Rightarrow> string \<Rightarrow> string list \<Rightarrow> world \<Rightarrow> string list flow \<times> world" where
  "upload_body e temp_path blob_urls w =
     (case upload_to_vercel_blob temp_path e w of
        (blob_url, w1) \<Rightarrow>
          (Continue (case blob_url of
                       None \<Rightarrow> blob_urls
                     | Some url \<Rightarrow> if url \<noteq> [] then blob_urls @ [url] else blob_urls),
           remove_and_log temp_path ''Cleaned up temporary clip file: ''
             ''Error cleaning up temp clip file '' e w1))"

text \<open>Lines 207-219: the loop over the generated clips, if there are any.\<close>

definition upload_all :: "env \<Rightarrow> string list \<Rightarrow> world \<Rightarrow> (string + string list) \<times> world" where
  "upload_all e temp_clip_paths w =
     (if temp_clip_paths \<noteq> []
      then for_loop (upload_body e) temp_clip_paths []
             (log_message (nl @ ''--- Uploading generated clips to Vercel Blob ---'') w)
      else (Inr [], w))"

definition download_failed_message :: string where
  "download_failed_message = ''Failed to download the YouTube video. Cannot generate clips.''"

definition no_clips_message :: string where
  "no_clips_message = ''No clips were generated or uploaded to Vercel Blob.''"

text \<open>Lines 221-231: remove the downloaded video, then queue the outcome.\<close>

definition finish_task :: "env \<Rightarrow> string \<Rightarrow> string list \<Rightarrow> world \<Rightarrow> world" where
  "finish_task e downloaded_full_video_path blob_urls w =
     (let w4 = remove_and_log downloaded_full_video_path
                 ''Cleaned up temporary downloaded video: ''
                 ''Error cleaning up temp downloaded video '' e w
      in if blob_urls \<noteq> [] then queue_put (completed_record blob_urls) w4
         else queue_put (failed_record no_clips_message) w4)"

text \<open>Lines 193-196: the download gave nothing usable.\<close>

definition download_failed :: "world \<Rightarrow> world" where
  "download_failed w =
     log_message download_failed_message (queue_put (failed_record download_failed_message) w)"

text \<open>Lines 233-235: the handler of every exception that reaches the task.\<close>

definition unexpected_error :: "string \<Rightarrow> world \<Rightarrow> world" where
  "unexpected_error err w =
     log_message (''An unexpected error occurred in processing task: '' @ err)
       (queue_put (error_record (''An unexpected error occurred: '' @ err)) w)"

definition process_video_task :: "config \<Rightarrow> env \<Rightarrow> string \<Rightarrow> world \<Rightarrow> world" where
  "process_video_task cfg e youtube_link w =
     (case download_youtube_video_to_temp youtube_link (tempdir e) e w of
        (Inl err, w1) \<Rightarrow> unexpected_error err w1
      | (Inr None, w1) \<Rightarrow> download_failed w1
      | (Inr (Some downloaded_full_video_path), w1) \<Rightarrow>
          if downloaded_full_video_path = [] \<or> downloaded_full_video_path \<notin> files w1 then
            download_failed w1
          else
            (case generate_short_clips_to_temp cfg downloaded_full_video_path
                    (CLIP_DURATION_SECONDS cfg) (NUM_CLIPS_TO_GENERATE cfg) (tempdir e) e w1 of
               (Inl err, w2) \<Rightarrow> unexpected_error err w2
             | (Inr temp_clip_paths, w2) \<Rightarrow>
                 (case upload_all e temp_clip_paths w2 of
                    (Inl err, w3) \<Rightarrow> unexpected_error err w3
                  | (Inr blob_urls, w3) \<Rightarrow>
                      finish_task e downloaded_full_video_path blob_urls w3)))"

section \<open>The routes (lines 242-278)\<close>

datatype http_error = BadRequestKeyError

text \<open>
  \<^verbatim>\<open>generate_clips\<close>: a missing form field aborts the request; an invalid link is answered
  at once; otherwise the queue is emptied, three lines are queued and the thread is
  started. The thread's work is process\_video\_task, run by the scheduler, not by this
  function.
\<close>

fun clear_queue :: "jval list \<Rightarrow> jval list" where
  "clear_queue [] = []"
| "clear_queue (item # q) = clear_queue q"

definition invalid_link_response :: jval where
  "invalid_link_response =
     JDict [(''status'', JStr ''error''), (''message'', JStr ''Invalid YouTube link provided.'')]"

definition processing_response :: jval where
  "processing_response =
     JDict [(''status'', JStr ''processing''),
            (''message'', JStr ''Video generation started. Check logs for updates.'')]"

definition generate_clips ::
    "(string \<times> string) list \<Rightarrow> world \<Rightarrow> (http_error + jval) \<times> world" where
  "generate_clips form w =
     (case map_of form ''youtube_link'' of
        None \<Rightarrow> (Inl BadRequestKeyError, w)
      | Some youtube_link \<Rightarrow>
          if youtube_link = []
             \<or> \<not> (prefix ''http://'' youtube_link \<or> prefix ''https://'' youtube_link) then
            (Inr invalid_link_response, w)
          else
            (Inr processing_response,
             (queue_put (JStr (''NOTE: Serverless functions have time limits (e.g., 5 min). ''
                                 @ ''Long videos might time out.''))
               (queue_put (JStr (''NOTE: Video processing is resource-intensive and may take ''
                                   @ ''time. Please monitor logs.''))
                 (queue_put (JStr ''Starting video processing...'')
                   (w\<lparr>log_queue := clear_queue (log_queue w)\<rparr>))))
               \<lparr>threads := threads w @ [youtube_link]\<rparr>))"

text \<open>
  \<^verbatim>\<open>get_logs\<close>: items are taken from the queue one by one; a dict with a \<^verbatim>\<open>status\<close> key
  is returned at once, anything else is collected.
\<close>

fun is_status_dict :: "jval \<Rightarrow> bool" where
  "is_status_dict (JDict d) = (''status'' \<in> set (map fst d))"
| "is_status_dict (JStr s) = False"
| "is_status_dict (JList xs) = False"

definition logging_response :: "jval list \<Rightarrow> jval" where
  "logging_response logs = JDict [(''status'', JStr ''logging''), (''logs'', JList logs)]"

fun drain :: "jval list \<Rightarrow> jval list \<Rightarrow> jval \<times> jval list" where
  "drain logs [] = (logging_response logs, [])"
| "drain logs (item # q) =
     (if is_status_dict item then (item, q) else drain (logs @ [item]) q)"

definition get_logs :: "world \<Rightarrow> jval \<times> world" where
  "get_logs w = (case drain [] (log_queue w) of (response, q) \<Rightarrow> (response, w\<lparr>log_queue := q\<rparr>))"

section \<open>Observing a job\<close>

text \<open>What one run of the task appends to the queue, and the terminal records among it.\<close>

definition job_writes :: "config \<Rightarrow> env \<Rightarrow> string \<Rightarrow> world \<Rightarrow> jval list" where
  "job_writes cfg e youtube_link w =
     drop (length (log_queue w)) (log_queue (process_video_task cfg e youtube_link w))"

definition terminal_records :: "jval list \<Rightarrow> jval list" where
  "terminal_records items = filter is_status_dict items"


text \<open>
  What lines 191-193 make of the download: an exception, no usable source, or the path of
  a file that exists.
\<close>

definition acquire :: "env \<Rightarrow> string \<Rightarrow> world \<Rightarrow> string + string option" where
  "acquire e youtube_link w =
     (case download_youtube_video_to_temp youtube_link (tempdir e) e w of
        (Inl err, w1) \<Rightarrow> Inl err
      | (Inr None, w1) \<Rightarrow> Inr None
      | (Inr (Some path), w1) \<Rightarrow>
          if path = [] \<or> path \<notin> files w1 then Inr None else Inr (Some path))"

text \<open>
  The message of the exception that reaches the handler of lines 233-235, if one does: the
  \<^verbatim>\<open>try\<close> block of process\_video\_task, without its effects.
\<close>

definition job_fault :: "config \<Rightarrow> env \<Rightarrow> string \<Rightarrow> world \<Rightarrow> string option" where
  "job_fault cfg e youtube_link w =
     (case download_youtube_video_to_temp youtube_link (tempdir e) e w of
        (Inl err, w1) \<Rightarrow> Some err
      | (Inr None, w1) \<Rightarrow> None
      | (Inr (Some downloaded_full_video_path), w1) \<Rightarrow>
          if downloaded_full_video_path = [] \<or> downloaded_full_video_path \<notin> files w1 then None
          else
            (case generate_short_clips_to_temp cfg downloaded_full_video_path
                    (CLIP_DURATION_SECONDS cfg) (NUM_CLIPS_TO_GENERATE cfg) (tempdir e) e w1 of
               (Inl err, w2) \<Rightarrow> Some err
             | (Inr temp_clip_paths, w2) \<Rightarrow>
                 (case upload_all e temp_clip_paths w2 of
                    (Inl err, w3) \<Rightarrow> Some err
                  | (Inr blob_urls, w3) \<Rightarrow> None)))"

text \<open>A step of the task that only logs: the queue keeps what it held and grows by plain lines.\<close>

fun is_line :: "jval \<Rightarrow> bool" where
  "is_line (JStr s) = True"
| "is_line (JList xs) = False"
| "is_line (JDict d) = False"

definition appends_lines :: "world \<Rightarrow> world \<Rightarrow> bool" where
  "appends_lines w w' =
     (take (length (log_queue w)) (log_queue w') = log_queue w
      \<and> list_all is_line (drop (length (log_queue w)) (log_queue w')))"

text \<open>The steps of a job by phase, without the clip expression and the blob path.\<close>

datatype phase = Acquire | Render nat | Publish string | Cleanup string

fun phase_of :: "step \<Rightarrow> phase" where
  "phase_of (RunCommand cmd) = Acquire"
| "phase_of (WriteVideofile i c output_filepath) = Render i"
| "phase_of (Upload local_filepath) = Publish local_filepath"
| "phase_of (Remove path) = Cleanup path"

definition job_phases :: "config \<Rightarrow> env \<Rightarrow> string \<Rightarrow> world \<Rightarrow> phase list" where
  "job_phases cfg e youtube_link w =
     map phase_of (drop (length (steps w)) (steps (process_video_task cfg e youtube_link w)))"

text \<open>
  The indices of the segments that the loop reaches and whose encoding succeeds, and the
  URL a clip is published under, if the blob store takes it and answers with a URL that
  counts as true.
\<close>

definition rendered_indices :: "env \<Rightarrow> rat \<Rightarrow> rat \<Rightarrow> nat \<Rightarrow> nat list" where
  "rendered_indices e video_duration clip_duration num_clips =
     filter (\<lambda>i. write_videofile e i = None)
       [0..<length (plan video_duration clip_duration num_clips)]"

definition rendered_paths :: "env \<Rightarrow> rat \<Rightarrow> rat \<Rightarrow> nat \<Rightarrow> string list" where
  "rendered_paths e video_duration clip_duration num_clips =
     map (clip_path e (tempdir e)) (rendered_indices e video_duration clip_duration num_clips)"

definition published_url :: "env \<Rightarrow> string \<Rightarrow> string option" where
  "published_url e local_filepath =
     (case vercel_put e (''clips/'' @ basename local_filepath) of
        PutOk url \<Rightarrow> if url \<noteq> [] then Some url else None
      | PutError err \<Rightarrow> None)"

section \<open>The words of the specification\<close>

text \<open>
  A scheme-qualified (absolute) reference, as the specification words the validation of a
  submission: a scheme (a letter, then letters, digits, \<open>+\<close>, \<open>-\<close> or \<open>.\<close>) followed by a
  colon.
\<close>

definition is_alpha :: "char \<Rightarrow> bool" where
  "is_alpha c = (c \<in> set ''abcdefghijklmnopqrstuvwxyzABCDEFGHIJKLMNOPQRSTUVWXYZ'')"

definition is_scheme_char :: "char \<Rightarrow> bool" where
  "is_scheme_char c = (is_alpha c \<or> c \<in> set ''0123456789+-.'')"

definition spec_scheme_qualified :: "string \<Rightarrow> bool" where
  "spec_scheme_qualified s =
     (let scheme = takeWhile (\<lambda>c. c \<noteq> CHR '':'') s
      in scheme \<noteq> [] \<and> length scheme < length s \<and> is_alpha (hd scheme)
         \<and> list_all is_scheme_char scheme)"

text \<open>
  The three shapes of a poll response as the specification words them: an idle result that
  carries a list of strings, a completed result with the list of URLs under the key
  \<^verbatim>\<open>urls\<close>, or a failure result with state \<^verbatim>\<open>failed\<close> or \<^verbatim>\<open>errored\<close> and a message
  string. The state is read under either of the keys \<^verbatim>\<open>state\<close> and \<^verbatim>\<open>status\<close>.
\<close>

definition field :: "jval \<Rightarrow> string \<Rightarrow> jval option" where
  "field r k = (case r of JDict d \<Rightarrow> map_of d k | JStr s \<Rightarrow> None | JList xs \<Rightarrow> None)"

definition state_of :: "jval \<Rightarrow> jval option" where
  "state_of r = (case field r ''state'' of Some v \<Rightarrow> Some v | None \<Rightarrow> field r ''status'')"

definition is_string_list :: "jval \<Rightarrow> bool" where
  "is_string_list v = (case v of JList us \<Rightarrow> list_all is_line us | JStr s \<Rightarrow> False | JDict d \<Rightarrow> False)"

definition spec_completed :: "jval \<Rightarrow> bool" where
  "spec_completed r =
     (state_of r = Some (JStr ''completed'')
      \<and> (case field r ''urls'' of Some v \<Rightarrow> is_string_list v | None \<Rightarrow> False))"

definition spec_failure :: "jval \<Rightarrow> bool" where
  "spec_failure r =
     ((state_of r = Some (JStr ''failed'') \<or> state_of r = Some (JStr ''errored''))
      \<and> (case field r ''message'' of Some v \<Rightarrow> is_line v | None \<Rightarrow> False))"

definition spec_idle :: "jval \<Rightarrow> bool" where
  "spec_idle r =
     (state_of r \<noteq> Some (JStr ''completed'') \<and> state_of r \<noteq> Some (JStr ''failed'')
      \<and> state_of r \<noteq> Some (JStr ''errored'')
      \<and> (case r of JDict d \<Rightarrow> list_ex (\<lambda>kv. is_string_list (snd kv)) d
          | JStr s \<Rightarrow> False | JList xs \<Rightarrow> False))"

definition spec_poll_shape :: "jval \<Rightarrow> bool" where
  "spec_poll_shape r = (spec_idle r \<or> spec_completed r \<or> spec_failure r)"

section \<open>What the program queues\<close>

text \<open>
  The items the program puts into the queue: plain lines, and the three records of
  process\_video\_task. A record is recognised by rebuilding it from its own fields.
\<close>

fun str_of :: "jval \<Rightarrow> string" where
  "str_of (JStr s) = s"
| "str_of (JList xs) = []"
| "str_of (JDict d) = []"

definition strs_of :: "jval \<Rightarrow> string list" where
  "strs_of v = (case v of JList us \<Rightarrow> map str_of us | JStr s \<Rightarrow> [] | JDict d \<Rightarrow> [])"

definition queued_by_program :: "jval \<Rightarrow> bool" where
  "queued_by_program x =
     (is_line x
      \<or> x = failed_record (case field x ''message'' of Some v \<Rightarrow> str_of v | None \<Rightarrow> [])
      \<or> x = error_record (case field x ''message'' of Some v \<Rightarrow> str_of v | None \<Rightarrow> [])
      \<or> x = completed_record (case field x ''clips'' of Some v \<Rightarrow> strs_of v | None \<Rightarrow> []))"

section \<open>Example runs\<close>

definition empty_world :: world where
  "empty_world = \<lparr>log_queue = [], files = {}, steps = [], threads = []\<rparr>"

text \<open>yt-dlp is not installed: \<^verbatim>\<open>subprocess.run\<close> raises FileNotFoundError.\<close>

definition env_no_ytdlp :: env where
  "env_no_ytdlp =
     \<lparr>tempdir = ''/tmp'', download_timestamp = ''20240101_000000'',
      subprocess_run = FileNotFoundError, glob_sorted = [],
      VideoFileClip = (\<lambda>p. LoadError ''unreadable''),
      clip_timestamp = (\<lambda>i. ''20240101_000001''),
      write_videofile = (\<lambda>i. None), vercel_put = (\<lambda>p. PutError ''offline''),
      remove_error = (\<lambda>p. None)\<rparr>"

text \<open>\<^verbatim>\<open>subprocess.run\<close> raises an exception that run\_subprocess\_command does not catch.\<close>

definition env_boom :: env where
  "env_boom = env_no_ytdlp\<lparr>subprocess_run := OtherError ''boom''\<rparr>"

text \<open>
  A video of 135 seconds is downloaded and five clips are rendered; the blob store refuses
  the second and the fourth clip.
\<close>

definition env_five :: env where
  "env_five =
     \<lparr>tempdir = ''/tmp'', download_timestamp = ''t0'',
      subprocess_run = Completed ''[download] Destination: full_video_t0.mp4'',
      glob_sorted = [],
      VideoFileClip = (\<lambda>p. Loaded 135 1920 1080),
      clip_timestamp = (\<lambda>i. ''t1''),
      write_videofile = (\<lambda>i. None),
      vercel_put = (\<lambda>p. if p = ''clips/short_clip_2_t1.mp4'' \<or> p = ''clips/short_clip_4_t1.mp4''
                          then PutError ''refused'' else PutOk (''https://blob/'' @ p)),
      remove_error = (\<lambda>p. None)\<rparr>"

definition world_five :: world where
  "world_five = \<lparr>log_queue = [], files = {''/tmp/full_video_t0.mp4''}, steps = [], threads = []\<rparr>"



section \<open>Segment planning\<close>



lemma plan_loop_length: "length (plan_loop T c js) \<le> length js"
  by (induction js) (auto split: window.splits)










section \<open>Frame geometry\<close>







section \<open>Polling\<close>

lemma drain_plain:
  "\<forall>x\<in>set q. \<not> is_status_dict x \<Longrightarrow> drain logs q = (logging_response (logs @ q), [])"
  by (induction q arbitrary: logs) auto

lemma drain_terminal:
  "\<forall>x\<in>set pre. \<not> is_status_dict x \<Longrightarrow> is_status_dict r \<Longrightarrow>
   drain logs (pre @ r # rest) = (r, rest)"
  by (induction pre arbitrary: logs) auto


lemma is_status_dict_JStr: "\<forall>x\<in>set (map JStr ls). \<not> is_status_dict x"
  by simp

text \<open>
  Claim C10. When the queue holds plain log lines followed by a terminal record, one poll
  returns the terminal record alone: the lines before it are in neither the response nor
  the queue afterwards. What was queued behind the record stays in the queue, and, being
  plain lines, is what the next poll returns.
\<close>

theorem C10_lines_before_terminal_discarded:
  assumes "log_queue w = map JStr lines @ r # rest" and "is_status_dict r"
  shows "get_logs w = (r, w\<lparr>log_queue := rest\<rparr>)
       \<and> ((\<forall>x\<in>set rest. \<not> is_status_dict x) \<longrightarrow>
            get_logs (snd (get_logs w)) = (logging_response rest, w\<lparr>log_queue := []\<rparr>))"
proof -
  have first: "get_logs w = (r, w\<lparr>log_queue := rest\<rparr>)"
    using drain_terminal[where pre="map JStr lines" and logs="[]" and rest=rest,
            OF is_status_dict_JStr assms(2)] assms(1)
    by (simp add: get_logs_def)
  have "get_logs (w\<lparr>log_queue := rest\<rparr>) = (logging_response rest, w\<lparr>log_queue := []\<rparr>)"
    if "\<forall>x\<in>set rest. \<not> is_status_dict x"
    using drain_plain[OF that, where logs="[]"] by (simp add: get_logs_def)
  with first show ?thesis by simp
qed

section \<open>The effects of the helper functions\<close>

declare show_nat.simps [simp del]

lemma queue_put_proj [simp]:
  "log_queue (queue_put x w) = log_queue w @ [x]"
  "files (queue_put x w) = files w"
  "steps (queue_put x w) = steps w"
  "threads (queue_put x w) = threads w"
  by (simp_all add: queue_put_def)

lemma log_message_proj [simp]:
  "log_queue (log_message m w) = log_queue w @ [JStr m]"
  "files (log_message m w) = files w"
  "steps (log_message m w) = steps w"
  "threads (log_message m w) = threads w"
  by (simp_all add: log_message_def)

lemma log_messages_proj [simp]:
  "log_queue (log_messages ms w) = log_queue w @ map JStr ms"
  "files (log_messages ms w) = files w"
  "steps (log_messages ms w) = steps w"
  "threads (log_messages ms w) = threads w"
  by (induction ms arbitrary: w) simp_all

declare log_messages.simps [simp del]

lemma record_step_proj [simp]:
  "log_queue (record_step s w) = log_queue w"
  "files (record_step s w) = files w"
  "steps (record_step s w) = steps w @ [s]"
  "threads (record_step s w) = threads w"
  by (simp_all add: record_step_def)

lemma list_all_is_line_map [simp]: "list_all is_line (map JStr ls)"
  by (induction ls) simp_all

lemma lines_are_strings: "list_all is_line xs \<Longrightarrow> \<exists>ls. xs = map JStr ls"
proof (induction xs)
  case Nil
  then show ?case by simp
next
  case (Cons x xs)
  then obtain ls where l: "xs = map JStr ls" by auto
  from Cons.prems obtain s where "x = JStr s" by (cases x) simp_all
  with l have "x # xs = map JStr (s # ls)" by simp
  then show ?case by (rule exI)
qed

lemma appends_lines_iff:
  "appends_lines w w' \<longleftrightarrow> (\<exists>ls. log_queue w' = log_queue w @ map JStr ls)"
proof
  assume a: "appends_lines w w'"
  define new where "new = drop (length (log_queue w)) (log_queue w')"
  have all: "list_all is_line new" using a by (simp add: appends_lines_def new_def)
  have "log_queue w' = take (length (log_queue w)) (log_queue w') @ new"
    by (simp add: new_def)
  then have q: "log_queue w' = log_queue w @ new" using a by (simp add: appends_lines_def)
  from lines_are_strings[OF all] q
  show "\<exists>ls. log_queue w' = log_queue w @ map JStr ls" by auto
next
  assume "\<exists>ls. log_queue w' = log_queue w @ map JStr ls"
  then show "appends_lines w w'" by (auto simp: appends_lines_def)
qed

lemma appends_lines_refl [simp]: "appends_lines w w"
  by (simp add: appends_lines_def)

lemma appends_lines_trans:
  "appends_lines w w1 \<Longrightarrow> appends_lines w1 w2 \<Longrightarrow> appends_lines w w2"
  unfolding appends_lines_iff
proof -
  assume "\<exists>ls. log_queue w1 = log_queue w @ map JStr ls"
    and "\<exists>ls. log_queue w2 = log_queue w1 @ map JStr ls"
  then obtain a b where "log_queue w1 = log_queue w @ map JStr a"
    and "log_queue w2 = log_queue w1 @ map JStr b" by blast
  then have "log_queue w2 = log_queue w @ map JStr (a @ b)" by simp
  then show "\<exists>ls. log_queue w2 = log_queue w @ map JStr ls" by blast
qed

lemma appends_lines_log_queue:
  "log_queue w' = log_queue w @ map JStr ls \<Longrightarrow> appends_lines w w'"
  unfolding appends_lines_iff by blast

lemma appends_lines_log_message [simp]: "appends_lines w (log_message m w)"
  by (simp add: appends_lines_def)

lemma appends_lines_log_messages [simp]: "appends_lines w (log_messages ms w)"
  by (simp add: appends_lines_def)

subsection \<open>run\_subprocess\_command and the download\<close>

lemma run_subprocess_command_world:
  "appends_lines w (snd (run_subprocess_command cmd pfx e w))"
  "files (snd (run_subprocess_command cmd pfx e w)) = files w"
  "steps (snd (run_subprocess_command cmd pfx e w)) = steps w @ [RunCommand cmd]"
  "threads (snd (run_subprocess_command cmd pfx e w)) = threads w"
  by (simp_all add: run_subprocess_command_def Let_def appends_lines_def split: proc_result.split)

lemma download_fallback_world:
  "appends_lines w (snd (download_fallback p e w))"
  "files (snd (download_fallback p e w)) = files w"
  "steps (snd (download_fallback p e w)) = steps w"
  "threads (snd (download_fallback p e w)) = threads w"
  by (simp_all add: download_fallback_def Let_def appends_lines_def split: list.split)

lemma download_world:
  "appends_lines w (snd (download_youtube_video_to_temp url dir e w))"
  "files (snd (download_youtube_video_to_temp url dir e w)) = files w"
  "steps (snd (download_youtube_video_to_temp url dir e w))
     = steps w @ [RunCommand (ytdlp_command url dir (download_timestamp e))]"
  "threads (snd (download_youtube_video_to_temp url dir e w)) = threads w"
proof -
  let ?w1 = "log_messages [nl @ ''--- Downloading YouTube video from: '' @ url @ '' ---'',
                  ''Saving temporarily to: '' @ dir] w"
  let ?cmd = "ytdlp_command url dir (download_timestamp e)"
  let ?r = "run_subprocess_command ?cmd ''Error downloading video with yt-dlp'' e ?w1"
  have a1: "appends_lines w ?w1" by simp
  have a2: "appends_lines w (snd ?r)"
    by (rule appends_lines_trans[OF a1 run_subprocess_command_world(1)])
  have fb: "appends_lines w (snd (download_fallback p e (snd ?r)))" for p
    by (rule appends_lines_trans[OF a2 download_fallback_world(1)])
  have lm: "appends_lines w (log_message m (snd ?r))" for m
    by (rule appends_lines_trans[OF a2 appends_lines_log_message])
  show "appends_lines w (snd (download_youtube_video_to_temp url dir e w))"
    using a2 fb lm
    by (simp add: download_youtube_video_to_temp_def Let_def case_prod_beta
          split: sum.split option.split)
  show "files (snd (download_youtube_video_to_temp url dir e w)) = files w"
    by (simp add: download_youtube_video_to_temp_def Let_def case_prod_beta
          run_subprocess_command_world download_fallback_world
          split: sum.split option.split)
  show "steps (snd (download_youtube_video_to_temp url dir e w)) = steps w @ [RunCommand ?cmd]"
    by (simp add: download_youtube_video_to_temp_def Let_def case_prod_beta
          run_subprocess_command_world download_fallback_world
          split: sum.split option.split)
  show "threads (snd (download_youtube_video_to_temp url dir e w)) = threads w"
    by (simp add: download_youtube_video_to_temp_def Let_def case_prod_beta
          run_subprocess_command_world download_fallback_world
          split: sum.split option.split)
qed

subsection \<open>Loops\<close>

lemma for_loop_appends_lines:
  assumes "\<And>i v w. appends_lines w (snd (body i v w))"
  shows "appends_lines w (snd (for_loop body xs v w))"
proof (induction xs arbitrary: v w)
  case Nil
  show ?case by simp
next
  case (Cons i xs)
  obtain r w' where b: "body i v w = (r, w')" by (cases "body i v w")
  have s: "appends_lines w w'" using assms[of w i v] b by simp
  show ?case
  proof (cases r)
    case (Continue v')
    with b have "snd (for_loop body (i # xs) v w) = snd (for_loop body xs v' w')" by simp
    with appends_lines_trans[OF s Cons[of w' v']] show ?thesis by simp
  qed (use b s in simp_all)
qed

lemma for_loop_threads:
  assumes "\<And>i v w. threads (snd (body i v w)) = threads w"
  shows "threads (snd (for_loop body xs v w)) = threads w"
proof (induction xs arbitrary: v w)
  case Nil
  show ?case by simp
next
  case (Cons i xs)
  obtain r w' where b: "body i v w = (r, w')" by (cases "body i v w")
  have s: "threads w' = threads w" using assms[of i v w] b by simp
  show ?case by (cases r) (use b s Cons in simp_all)
qed

subsection \<open>The clip loop\<close>

lemma clip_body_world:
  "appends_lines w (snd (clip_body cfg e full dur ta clip dir i v w))"
  "threads (snd (clip_body cfg e full dur ta clip dir i v w)) = threads w"
  by (simp_all add: clip_body_def Let_def appends_lines_def case_prod_beta
        split: window.split sum.split option.split)

lemma clip_body_break:
  assumes "\<forall>s t. clip_window dur clip i \<noteq> Segment s t"
  shows "fst (clip_body cfg e full dur ta clip dir i v w) = Break v"
    and "files (snd (clip_body cfg e full dur ta clip dir i v w)) = files w"
    and "steps (snd (clip_body cfg e full dur ta clip dir i v w)) = steps w"
  using assms
  by (simp_all add: clip_body_def case_prod_beta split: window.split)

lemma clip_body_rendered:
  assumes "clip_window dur clip i = Segment s t"
    and "process_clip cfg ta (Subclip s t full) = Inr c"
    and "write_videofile e i = None"
  shows "fst (clip_body cfg e full dur ta clip dir i (paths, cnt) w)
           = Continue (paths @ [clip_path e dir i], cnt + 1)"
    and "files (snd (clip_body cfg e full dur ta clip dir i (paths, cnt) w))
           = insert (clip_path e dir i) (files w)"
    and "steps (snd (clip_body cfg e full dur ta clip dir i (paths, cnt) w))
           = steps w @ [WriteVideofile i c (clip_path e dir i)]"
  using assms by (simp_all add: clip_body_def Let_def)

lemma clip_body_failed:
  assumes "clip_window dur clip i = Segment s t"
    and "process_clip cfg ta (Subclip s t full) = Inr c"
    and "write_videofile e i = Some err"
  shows "fst (clip_body cfg e full dur ta clip dir i (paths, cnt) w) = Continue (paths, cnt)"
    and "files (snd (clip_body cfg e full dur ta clip dir i (paths, cnt) w)) = files w"
    and "steps (snd (clip_body cfg e full dur ta clip dir i (paths, cnt) w))
           = steps w @ [WriteVideofile i c (clip_path e dir i)]"
  using assms by (simp_all add: clip_body_def Let_def)

text \<open>
  The loop, when the geometry step does not raise: it reaches the indices of the planned
  segments, renders each of them in turn, and returns the paths of those whose encoding
  succeeded.
\<close>

lemma clip_loop_run:
  assumes nofault: "\<And>s t. \<exists>c. process_clip cfg ta (Subclip s t full) = Inr c"
  shows "fst (for_loop (clip_body cfg e full dur ta clip dir) js (paths, cnt) w)
           = Inr (paths @ map (clip_path e dir)
                    (filter (\<lambda>i. write_videofile e i = None)
                       (take (length (plan_loop dur clip js)) js)),
                  cnt + length (filter (\<lambda>i. write_videofile e i = None)
                       (take (length (plan_loop dur clip js)) js)))
       \<and> files (snd (for_loop (clip_body cfg e full dur ta clip dir) js (paths, cnt) w))
           = files w \<union> set (map (clip_path e dir)
                    (filter (\<lambda>i. write_videofile e i = None)
                       (take (length (plan_loop dur clip js)) js)))
       \<and> map phase_of (steps (snd (for_loop (clip_body cfg e full dur ta clip dir) js
                                      (paths, cnt) w)))
           = map phase_of (steps w) @ map Render (take (length (plan_loop dur clip js)) js)"
proof (induction js arbitrary: paths cnt w)
  case Nil
  show ?case by simp
next
  case (Cons i js)
  let ?body = "clip_body cfg e full dur ta clip dir"
  obtain r w' where b: "?body i (paths, cnt) w = (r, w')" by (cases "?body i (paths, cnt) w")
  show ?case
  proof (cases "clip_window dur clip i")
    case (Segment s t)
    from nofault obtain c where c: "process_clip cfg ta (Subclip s t full) = Inr c" by blast
    show ?thesis
    proof (cases "write_videofile e i")
      case None
      from clip_body_rendered[OF Segment c None, of dir paths cnt w] b
      have r: "r = Continue (paths @ [clip_path e dir i], cnt + 1)"
        and f: "files w' = insert (clip_path e dir i) (files w)"
        and st: "steps w' = steps w @ [WriteVideofile i c (clip_path e dir i)]"
        by simp_all
      from Cons[of "paths @ [clip_path e dir i]" "cnt + 1" w'] b r f st Segment None
      show ?thesis by simp
    next
      case (Some err)
      from clip_body_failed[OF Segment c Some, of dir paths cnt w] b
      have r: "r = Continue (paths, cnt)"
        and f: "files w' = files w"
        and st: "steps w' = steps w @ [WriteVideofile i c (clip_path e dir i)]"
        by simp_all
      from Cons[of paths cnt w'] b r f st Segment Some
      show ?thesis by simp
    qed
  next
    case ReachedEnd
    then have "\<forall>s t. clip_window dur clip i \<noteq> Segment s t" by simp
    from clip_body_break[OF this, of cfg e full ta dir "(paths, cnt)" w] b ReachedEnd
    show ?thesis by simp
  next
    case (TooShort d)
    then have "\<forall>s t. clip_window dur clip i \<noteq> Segment s t" by simp
    from clip_body_break[OF this, of cfg e full ta dir "(paths, cnt)" w] b TooShort
    show ?thesis by simp
  qed
qed

subsection \<open>generate\_short\_clips\_to\_temp\<close>

lemma process_clip_no_fault:
  assumes "0 \<le> fw" and "0 < fh" and "0 \<le> SHORT_VIDEO_WIDTH cfg" and "0 < SHORT_VIDEO_HEIGHT cfg"
  shows "\<exists>c. process_clip cfg (of_int (SHORT_VIDEO_WIDTH cfg) / of_int (SHORT_VIDEO_HEIGHT cfg))
               (Subclip s t (FullClip fw fh)) = Inr c"
proof -
  have "(0::rat) \<le> of_int fw / of_int fh" using assms(1,2) by simp
  then have "\<not> (of_int fw / of_int fh < (0::rat))" by simp
  then show ?thesis using assms(2)
    by (auto simp: process_clip_def Let_def)
qed

lemma generate_world:
  "appends_lines w (snd (generate_short_clips_to_temp cfg path clip n dir e w))"
  "threads (snd (generate_short_clips_to_temp cfg path clip n dir e w)) = threads w"
proof -
  let ?w1 = "log_message (nl @ ''--- Processing video: '' @ basename path @ '' ---'') w"
  have a1: "appends_lines w ?w1" by simp
  have a2: "appends_lines w (log_messages ms ?w1)" for ms
    by (rule appends_lines_trans[OF a1 appends_lines_log_messages])
  have a3: "appends_lines w (log_message m ?w1)" for m
    by (rule appends_lines_trans[OF a1 appends_lines_log_message])
  have a4: "appends_lines w (snd (for_loop (clip_body cfg e full dur ta clip dir) js v
                                    (log_message m ?w1)))" for full dur ta js v m
    by (rule appends_lines_trans[OF a3 for_loop_appends_lines]) (rule clip_body_world)
  have a5: "appends_lines w (log_message m' (snd (for_loop (clip_body cfg e full dur ta clip dir)
                                    js v (log_message m ?w1))))" for full dur ta js v m m'
    by (rule appends_lines_trans[OF a4 appends_lines_log_message])
  show "appends_lines w (snd (generate_short_clips_to_temp cfg path clip n dir e w))"
    using a2 a3 a4 a5
    by (simp add: generate_short_clips_to_temp_def Let_def case_prod_beta
          split: load_result.split sum.split)
  have t: "threads (snd (for_loop (clip_body cfg e full dur ta clip dir) js v w')) = threads w'"
    for full dur ta js v w'
    by (rule for_loop_threads) (rule clip_body_world)
  show "threads (snd (generate_short_clips_to_temp cfg path clip n dir e w)) = threads w"
    by (simp add: generate_short_clips_to_temp_def Let_def case_prod_beta t
          split: load_result.split sum.split)
qed


lemma generate_run:
  assumes load: "VideoFileClip e path = Loaded dur fw fh"
    and geom: "0 \<le> fw" "0 < fh" "0 \<le> SHORT_VIDEO_WIDTH cfg" "0 < SHORT_VIDEO_HEIGHT cfg"
  shows "fst (generate_short_clips_to_temp cfg path clip n dir e w)
           = Inr (map (clip_path e dir) (rendered_indices e dur clip n))"
    and "files (snd (generate_short_clips_to_temp cfg path clip n dir e w))
           = files w \<union> set (map (clip_path e dir) (rendered_indices e dur clip n))"
    and "map phase_of (steps (snd (generate_short_clips_to_temp cfg path clip n dir e w)))
           = map phase_of (steps w) @ map Render [0..<length (plan dur clip n)]"
proof -
  let ?ta = "of_int (SHORT_VIDEO_WIDTH cfg) / of_int (SHORT_VIDEO_HEIGHT cfg) :: rat"
  let ?w2 = "log_message (''Full video duration: '' @ fmt_2f dur @ '' seconds.'')
               (log_message (nl @ ''--- Processing video: '' @ basename path @ '' ---'') w)"
  let ?loop = "for_loop (clip_body cfg e (FullClip fw fh) dur ?ta clip dir) [0..<n] ([], 0) ?w2"
  have ta: "target_aspect_of cfg = Inr ?ta"
    using geom(4) by (simp add: target_aspect_of_def)
  have tk: "take (length (plan_loop dur clip [0..<n])) [0..<n] = [0..<length (plan dur clip n)]"
    using plan_loop_length[of dur clip "[0..<n]"] by (simp add: plan_def take_upt)
  from clip_loop_run[of cfg ?ta "FullClip fw fh" e dur clip dir "[0..<n]" "[]" 0 ?w2,
      OF process_clip_no_fault[OF geom]]
  have r: "fst ?loop = Inr (map (clip_path e dir) (rendered_indices e dur clip n),
                            length (rendered_indices e dur clip n))"
    and f: "files (snd ?loop) = files w \<union> set (map (clip_path e dir) (rendered_indices e dur clip n))"
    and s: "map phase_of (steps (snd ?loop))
              = map phase_of (steps w) @ map Render [0..<length (plan dur clip n)]"
    by (simp_all add: tk rendered_indices_def)
  obtain res w3 where l: "?loop = (res, w3)" by (cases ?loop)
  with r f s have res: "res = Inr (map (clip_path e dir) (rendered_indices e dur clip n),
                            length (rendered_indices e dur clip n))"
    and f3: "files w3 = files w \<union> set (map (clip_path e dir) (rendered_indices e dur clip n))"
    and s3: "map phase_of (steps w3)
              = map phase_of (steps w) @ map Render [0..<length (plan dur clip n)]"
    by simp_all
  show "fst (generate_short_clips_to_temp cfg path clip n dir e w)
           = Inr (map (clip_path e dir) (rendered_indices e dur clip n))"
    using load ta l res by (simp add: generate_short_clips_to_temp_def Let_def)
  show "files (snd (generate_short_clips_to_temp cfg path clip n dir e w))
           = files w \<union> set (map (clip_path e dir) (rendered_indices e dur clip n))"
    using load ta l res f3 by (simp add: generate_short_clips_to_temp_def Let_def)
  show "map phase_of (steps (snd (generate_short_clips_to_temp cfg path clip n dir e w)))
           = map phase_of (steps w) @ map Render [0..<length (plan dur clip n)]"
    using load ta l res s3 by (simp add: generate_short_clips_to_temp_def Let_def)
qed

subsection \<open>Uploading and cleaning up\<close>

lemma upload_to_vercel_blob_world:
  "appends_lines w (snd (upload_to_vercel_blob p e w))"
  "files (snd (upload_to_vercel_blob p e w)) = files w"
  "steps (snd (upload_to_vercel_blob p e w)) = steps w @ [Upload p]"
  "threads (snd (upload_to_vercel_blob p e w)) = threads w"
  by (simp_all add: upload_to_vercel_blob_def Let_def appends_lines_def split: put_result.split)

lemma upload_to_vercel_blob_result:
  "fst (upload_to_vercel_blob p e w)
     = (if p \<in> files w
        then (case vercel_put e (''clips/'' @ basename p) of
                PutOk url \<Rightarrow> Some url | PutError err \<Rightarrow> None)
        else None)"
  by (simp add: upload_to_vercel_blob_def Let_def split: put_result.split)

lemma remove_and_log_world:
  "appends_lines w (remove_and_log p a b e w)"
  "files (remove_and_log p a b e w) = (if remove_error e p = None then files w - {p} else files w)"
  "steps (remove_and_log p a b e w) = steps w @ [Remove p]"
  "threads (remove_and_log p a b e w) = threads w"
  by (auto simp: remove_and_log_def os_remove_def Let_def appends_lines_def split: option.split)

lemma upload_body_world:
  "appends_lines w (snd (upload_body e p urls w))"
  "files (snd (upload_body e p urls w))
     = (if remove_error e p = None then files w - {p} else files w)"
  "steps (snd (upload_body e p urls w)) = steps w @ [Upload p, Remove p]"
  "threads (snd (upload_body e p urls w)) = threads w"
proof -
  show "appends_lines w (snd (upload_body e p urls w))"
    by (simp add: upload_body_def case_prod_beta)
       (rule appends_lines_trans[OF upload_to_vercel_blob_world(1) remove_and_log_world(1)])
qed (simp_all add: upload_body_def case_prod_beta remove_and_log_world upload_to_vercel_blob_world)

lemma upload_body_result:
  "fst (upload_body e p urls w)
     = Continue (urls @ (if p \<in> files w
                         then (case published_url e p of Some u \<Rightarrow> [u] | None \<Rightarrow> [])
                         else []))"
  by (simp add: upload_body_def case_prod_beta upload_to_vercel_blob_result published_url_def
        split: put_result.split)

lemma upload_loop_world:
  "appends_lines w (snd (for_loop (upload_body e) ps urls w))"
  "threads (snd (for_loop (upload_body e) ps urls w)) = threads w"
  by (rule for_loop_appends_lines, rule upload_body_world)
     (rule for_loop_threads, rule upload_body_world)

lemma upload_loop_effects:
  "(\<exists>urls'. fst (for_loop (upload_body e) ps urls w) = Inr urls')
   \<and> files (snd (for_loop (upload_body e) ps urls w))
       = files w - {p \<in> set ps. remove_error e p = None}
   \<and> steps (snd (for_loop (upload_body e) ps urls w))
       = steps w @ concat (map (\<lambda>p. [Upload p, Remove p]) ps)"
proof (induction ps arbitrary: urls w)
  case Nil
  show ?case by simp
next
  case (Cons p ps)
  obtain r w' where b: "upload_body e p urls w = (r, w')" by (cases "upload_body e p urls w")
  from upload_body_result[of e p urls w] b obtain urls1 where r: "r = Continue urls1" by simp
  from upload_body_world(2,3)[of e p urls w] b
  have f: "files w' = (if remove_error e p = None then files w - {p} else files w)"
    and s: "steps w' = steps w @ [Upload p, Remove p]" by simp_all
  from Cons[of urls1 w'] b r f s show ?case by auto
qed

lemma upload_loop_urls:
  assumes "distinct ps" and "set ps \<subseteq> files w"
  shows "fst (for_loop (upload_body e) ps urls w) = Inr (urls @ List.map_filter (published_url e) ps)"
  using assms
proof (induction ps arbitrary: urls w)
  case Nil
  show ?case by (simp add: List.map_filter_simps)
next
  case (Cons p ps)
  obtain r w' where b: "upload_body e p urls w = (r, w')" by (cases "upload_body e p urls w")
  from upload_body_result[of e p urls w] b Cons.prems
  have r: "r = Continue (urls @ (case published_url e p of Some u \<Rightarrow> [u] | None \<Rightarrow> []))"
    by simp
  from upload_body_world(2)[of e p urls w] b
  have f: "files w' = (if remove_error e p = None then files w - {p} else files w)" by simp
  have sub: "set ps \<subseteq> files w'" using Cons.prems f by auto
  have d: "distinct ps" using Cons.prems by simp
  from Cons.IH[OF d sub] b r show ?case
    by (simp add: List.map_filter_simps split: option.split)
qed

subsection \<open>process\_video\_task\<close>

lemma is_status_dict_records [simp]:
  "is_status_dict (failed_record m)"
  "is_status_dict (error_record m)"
  "is_status_dict (completed_record urls)"
  by (simp_all add: failed_record_def error_record_def completed_record_def)

lemma filter_status_lines [simp]: "filter is_status_dict (map JStr ls) = []"
  by (induction ls) simp_all

lemma terminal_records_shape:
  "is_status_dict r \<Longrightarrow> terminal_records (map JStr pre @ r # map JStr post) = [r]"
  by (simp add: terminal_records_def)

lemma upload_all_world:
  "appends_lines w (snd (upload_all e ps w))"
  "threads (snd (upload_all e ps w)) = threads w"
proof -
  show "appends_lines w (snd (upload_all e ps w))"
    using appends_lines_trans[OF appends_lines_log_message upload_loop_world(1)]
    by (simp add: upload_all_def)
  show "threads (snd (upload_all e ps w)) = threads w"
    by (simp add: upload_all_def upload_loop_world)
qed

lemma upload_all_effects:
  "(\<exists>urls. fst (upload_all e ps w) = Inr urls)
   \<and> files (snd (upload_all e ps w)) = files w - {p \<in> set ps. remove_error e p = None}
   \<and> steps (snd (upload_all e ps w)) = steps w @ concat (map (\<lambda>p. [Upload p, Remove p]) ps)"
proof (cases "ps = []")
  case True
  then show ?thesis by (simp add: upload_all_def)
next
  case False
  let ?w = "log_message (nl @ ''--- Uploading generated clips to Vercel Blob ---'') w"
  from upload_loop_effects[of e ps "[]" ?w] False show ?thesis
    by (simp add: upload_all_def)
qed

lemma upload_all_urls:
  assumes "distinct ps" and "set ps \<subseteq> files w"
  shows "fst (upload_all e ps w) = Inr (List.map_filter (published_url e) ps)"
proof (cases "ps = []")
  case True
  then show ?thesis by (simp add: upload_all_def List.map_filter_simps)
next
  case False
  let ?w = "log_message (nl @ ''--- Uploading generated clips to Vercel Blob ---'') w"
  have "set ps \<subseteq> files ?w" using assms(2) by simp
  from upload_loop_urls[OF assms(1) this, of e "[]"] False show ?thesis
    by (simp add: upload_all_def)
qed

lemma finish_task_world:
  "\<exists>m. log_queue (finish_task e p urls w)
        = log_queue w @ [JStr m, if urls \<noteq> [] then completed_record urls
                                 else failed_record no_clips_message]"
  "files (finish_task e p urls w) = (if remove_error e p = None then files w - {p} else files w)"
  "steps (finish_task e p urls w) = steps w @ [Remove p]"
  "threads (finish_task e p urls w) = threads w"
proof -
  show "\<exists>m. log_queue (finish_task e p urls w)
        = log_queue w @ [JStr m, if urls \<noteq> [] then completed_record urls
                                 else failed_record no_clips_message]"
    by (cases "os_remove p e w")
       (auto simp: finish_task_def Let_def remove_and_log_def os_remove_def split: option.splits if_splits)
qed (simp_all add: finish_task_def Let_def remove_and_log_world)

lemma download_failed_world [simp]:
  "log_queue (download_failed w)
     = log_queue w @ [failed_record download_failed_message, JStr download_failed_message]"
  "files (download_failed w) = files w"
  "steps (download_failed w) = steps w"
  "threads (download_failed w) = threads w"
  by (simp_all add: download_failed_def)

lemma unexpected_error_world [simp]:
  "log_queue (unexpected_error err w)
     = log_queue w @ [error_record (''An unexpected error occurred: '' @ err),
                      JStr (''An unexpected error occurred in processing task: '' @ err)]"
  "files (unexpected_error err w) = files w"
  "steps (unexpected_error err w) = steps w"
  "threads (unexpected_error err w) = threads w"
  by (simp_all add: unexpected_error_def)

text \<open>The three ways through the task, by what the download and the generation return.\<close>

lemma task_download_fault:
  assumes "acquire e url w = Inl err"
  shows "process_video_task cfg e url w
           = unexpected_error err (snd (download_youtube_video_to_temp url (tempdir e) e w))"
proof -
  obtain r w1 where d: "download_youtube_video_to_temp url (tempdir e) e w = (r, w1)"
    by (cases "download_youtube_video_to_temp url (tempdir e) e w")
  with assms have "r = Inl err"
    by (auto simp: acquire_def split: sum.splits option.splits if_splits)
  with d show ?thesis by (simp add: process_video_task_def)
qed

lemma task_no_source:
  assumes "acquire e url w = Inr None"
  shows "process_video_task cfg e url w
           = download_failed (snd (download_youtube_video_to_temp url (tempdir e) e w))"
proof -
  obtain r w1 where d: "download_youtube_video_to_temp url (tempdir e) e w = (r, w1)"
    by (cases "download_youtube_video_to_temp url (tempdir e) e w")
  with assms have "r = Inr None \<or> (\<exists>p. r = Inr (Some p) \<and> (p = [] \<or> p \<notin> files w1))"
    by (auto simp: acquire_def split: sum.splits option.splits if_splits)
  with d show ?thesis by (auto simp: process_video_task_def)
qed

lemma task_source:
  assumes "acquire e url w = Inr (Some p)"
  shows "download_youtube_video_to_temp url (tempdir e) e w
           = (Inr (Some p), snd (download_youtube_video_to_temp url (tempdir e) e w))"
    and "p \<noteq> []"
    and "p \<in> files w"
proof -
  obtain r w1 where d: "download_youtube_video_to_temp url (tempdir e) e w = (r, w1)"
    by (cases "download_youtube_video_to_temp url (tempdir e) e w")
  with assms have r: "r = Inr (Some p) \<and> p \<noteq> [] \<and> p \<in> files w1"
    by (auto simp: acquire_def split: sum.splits option.splits if_splits)
  from download_world(2)[of url "tempdir e" e w] d have "files w1 = files w" by simp
  with r d show "download_youtube_video_to_temp url (tempdir e) e w
           = (Inr (Some p), snd (download_youtube_video_to_temp url (tempdir e) e w))"
    and "p \<noteq> []" and "p \<in> files w" by simp_all
qed

lemma task_generate_fault:
  assumes "acquire e url w = Inr (Some p)"
    and "fst (generate_short_clips_to_temp cfg p (CLIP_DURATION_SECONDS cfg)
               (NUM_CLIPS_TO_GENERATE cfg) (tempdir e) e
               (snd (download_youtube_video_to_temp url (tempdir e) e w))) = Inl err"
  shows "process_video_task cfg e url w
           = unexpected_error err
               (snd (generate_short_clips_to_temp cfg p (CLIP_DURATION_SECONDS cfg)
                       (NUM_CLIPS_TO_GENERATE cfg) (tempdir e) e
                       (snd (download_youtube_video_to_temp url (tempdir e) e w))))"
proof -
  let ?w1 = "snd (download_youtube_video_to_temp url (tempdir e) e w)"
  let ?g = "generate_short_clips_to_temp cfg p (CLIP_DURATION_SECONDS cfg)
               (NUM_CLIPS_TO_GENERATE cfg) (tempdir e) e ?w1"
  note src = task_source[OF assms(1)]
  have f1: "p \<in> files ?w1" using src(3) by (simp add: download_world)
  obtain w2 where g: "?g = (Inl err, w2)" using assms(2) by (cases ?g) simp
  show ?thesis
    apply (subst process_video_task_def)
    apply (subst src(1))
    using src(2) f1 g by simp
qed

lemma task_finished:
  assumes "acquire e url w = Inr (Some p)"
    and "fst (generate_short_clips_to_temp cfg p (CLIP_DURATION_SECONDS cfg)
               (NUM_CLIPS_TO_GENERATE cfg) (tempdir e) e
               (snd (download_youtube_video_to_temp url (tempdir e) e w))) = Inr paths"
    and "fst (upload_all e paths
               (snd (generate_short_clips_to_temp cfg p (CLIP_DURATION_SECONDS cfg)
                       (NUM_CLIPS_TO_GENERATE cfg) (tempdir e) e
                       (snd (download_youtube_video_to_temp url (tempdir e) e w))))) = Inr urls"
  shows "process_video_task cfg e url w
           = finish_task e p urls
               (snd (upload_all e paths
                  (snd (generate_short_clips_to_temp cfg p (CLIP_DURATION_SECONDS cfg)
                          (NUM_CLIPS_TO_GENERATE cfg) (tempdir e) e
                          (snd (download_youtube_video_to_temp url (tempdir e) e w))))))"
proof -
  let ?w1 = "snd (download_youtube_video_to_temp url (tempdir e) e w)"
  let ?g = "generate_short_clips_to_temp cfg p (CLIP_DURATION_SECONDS cfg)
               (NUM_CLIPS_TO_GENERATE cfg) (tempdir e) e ?w1"
  let ?u = "upload_all e paths (snd ?g)"
  note src = task_source[OF assms(1)]
  have f1: "p \<in> files ?w1" using src(3) by (simp add: download_world)
  obtain w2 where g: "?g = (Inr paths, w2)" using assms(2) by (cases ?g) simp
  obtain w3 where u: "upload_all e paths w2 = (Inr urls, w3)"
    using assms(3) g by (cases "upload_all e paths w2") simp
  show ?thesis
    apply (subst process_video_task_def)
    apply (subst src(1))
    using src(2) f1 g u by simp
qed

text \<open>What a run appends to the queue: plain lines, one record, and at most one more line.\<close>

lemma task_queue_cases:
  "(\<exists>err pre.
      (acquire e url w = Inl err
       \<or> (\<exists>p. acquire e url w = Inr (Some p)
              \<and> fst (generate_short_clips_to_temp cfg p (CLIP_DURATION_SECONDS cfg)
                       (NUM_CLIPS_TO_GENERATE cfg) (tempdir e) e
                       (snd (download_youtube_video_to_temp url (tempdir e) e w))) = Inl err))
      \<and> log_queue (process_video_task cfg e url w)
          = log_queue w @ map JStr pre
              @ [error_record (''An unexpected error occurred: '' @ err),
                 JStr (''An unexpected error occurred in processing task: '' @ err)])
   \<or> (\<exists>pre. acquire e url w = Inr None
        \<and> log_queue (process_video_task cfg e url w)
            = log_queue w @ map JStr pre
                @ [failed_record download_failed_message, JStr download_failed_message])
   \<or> (\<exists>p paths urls pre. acquire e url w = Inr (Some p)
        \<and> fst (generate_short_clips_to_temp cfg p (CLIP_DURATION_SECONDS cfg)
                 (NUM_CLIPS_TO_GENERATE cfg) (tempdir e) e
                 (snd (download_youtube_video_to_temp url (tempdir e) e w))) = Inr paths
        \<and> fst (upload_all e paths
                 (snd (generate_short_clips_to_temp cfg p (CLIP_DURATION_SECONDS cfg)
                         (NUM_CLIPS_TO_GENERATE cfg) (tempdir e) e
                         (snd (download_youtube_video_to_temp url (tempdir e) e w))))) = Inr urls
        \<and> log_queue (process_video_task cfg e url w)
            = log_queue w @ map JStr pre
                @ [if urls \<noteq> [] then completed_record urls else failed_record no_clips_message])"
proof -
  let ?w1 = "snd (download_youtube_video_to_temp url (tempdir e) e w)"
  from download_world(1)[of w url "tempdir e" e] obtain l1
    where q1: "log_queue ?w1 = log_queue w @ map JStr l1"
    unfolding appends_lines_iff by blast
  show ?thesis
  proof (cases "acquire e url w")
    case (Inl err)
    from task_download_fault[OF Inl, of cfg] q1
    have "log_queue (process_video_task cfg e url w)
          = log_queue w @ map JStr l1
              @ [error_record (''An unexpected error occurred: '' @ err),
                 JStr (''An unexpected error occurred in processing task: '' @ err)]"
      by simp
    with Inl show ?thesis by blast
  next
    case (Inr po)
    show ?thesis
    proof (cases po)
      case None
      from task_no_source[of e url w cfg] Inr None q1
      have "log_queue (process_video_task cfg e url w)
            = log_queue w @ map JStr l1
                @ [failed_record download_failed_message, JStr download_failed_message]"
        by simp
      with Inr None show ?thesis by blast
    next
      case (Some p)
      let ?g = "generate_short_clips_to_temp cfg p (CLIP_DURATION_SECONDS cfg)
                  (NUM_CLIPS_TO_GENERATE cfg) (tempdir e) e ?w1"
      have acq: "acquire e url w = Inr (Some p)" using Inr Some by simp
      from generate_world(1)[of ?w1 cfg p "CLIP_DURATION_SECONDS cfg"
             "NUM_CLIPS_TO_GENERATE cfg" "tempdir e" e]
      obtain l2 where q2: "log_queue (snd ?g) = log_queue ?w1 @ map JStr l2"
        unfolding appends_lines_iff by blast
      show ?thesis
      proof (cases "fst ?g")
        case (Inl err)
        from task_generate_fault[OF acq Inl] q1 q2
        have "log_queue (process_video_task cfg e url w)
              = log_queue w @ map JStr (l1 @ l2)
                  @ [error_record (''An unexpected error occurred: '' @ err),
                     JStr (''An unexpected error occurred in processing task: '' @ err)]"
          by simp
        with acq Inl show ?thesis by blast
      next
        case (Inr paths)
        let ?u = "upload_all e paths (snd ?g)"
        from upload_all_effects[of e paths "snd ?g"] obtain urls
          where u: "fst ?u = Inr urls" by blast
        from upload_all_world(1)[of "snd ?g" e paths]
        obtain l3 where q3: "log_queue (snd ?u) = log_queue (snd ?g) @ map JStr l3"
          unfolding appends_lines_iff by blast
        from finish_task_world(1)[of e p urls "snd ?u"] obtain m
          where q4: "log_queue (finish_task e p urls (snd ?u))
                = log_queue (snd ?u) @ [JStr m, if urls \<noteq> [] then completed_record urls
                                 else failed_record no_clips_message]" by blast
        from task_finished[OF acq Inr u] q1 q2 q3 q4
        have "log_queue (process_video_task cfg e url w)
              = log_queue w @ map JStr (l1 @ l2 @ l3 @ [m])
                  @ [if urls \<noteq> [] then completed_record urls else failed_record no_clips_message]"
          by simp
        with acq Inr u show ?thesis by blast
      qed
    qed
  qed
qed

lemma job_writes_eq:
  "log_queue (process_video_task cfg e url w) = log_queue w @ xs \<Longrightarrow> job_writes cfg e url w = xs"
  by (simp add: job_writes_def)

lemma job_phases_eq:
  assumes "map phase_of (steps (process_video_task cfg e url w)) = map phase_of (steps w) @ xs"
  shows "job_phases cfg e url w = xs"
proof -
  have "job_phases cfg e url w
          = drop (length (map phase_of (steps w)))
              (map phase_of (steps (process_video_task cfg e url w)))"
    by (simp add: job_phases_def drop_map)
  then show ?thesis by (simp only: assms append_eq_conv_conj drop_append length_map)
       (simp add: drop_map)
qed

lemma task_terminal_fault:
  assumes "acquire e url w = Inl err
       \<or> (\<exists>p. acquire e url w = Inr (Some p)
              \<and> fst (generate_short_clips_to_temp cfg p (CLIP_DURATION_SECONDS cfg)
                       (NUM_CLIPS_TO_GENERATE cfg) (tempdir e) e
                       (snd (download_youtube_video_to_temp url (tempdir e) e w))) = Inl err)"
  shows "terminal_records (job_writes cfg e url w)
           = [error_record (''An unexpected error occurred: '' @ err)]"
proof -
  from task_queue_cases[of e url w cfg] assms
  obtain pre where "log_queue (process_video_task cfg e url w)
          = log_queue w @ map JStr pre
              @ [error_record (''An unexpected error occurred: '' @ err),
                 JStr (''An unexpected error occurred in processing task: '' @ err)]"
    by auto
  from job_writes_eq[OF this] show ?thesis
    using terminal_records_shape[of "error_record (''An unexpected error occurred: '' @ err)" pre
            "[''An unexpected error occurred in processing task: '' @ err]"]
    by simp
qed


lemma task_terminal_finished:
  assumes "acquire e url w = Inr (Some p)"
    and "fst (generate_short_clips_to_temp cfg p (CLIP_DURATION_SECONDS cfg)
               (NUM_CLIPS_TO_GENERATE cfg) (tempdir e) e
               (snd (download_youtube_video_to_temp url (tempdir e) e w))) = Inr paths"
    and "fst (upload_all e paths
               (snd (generate_short_clips_to_temp cfg p (CLIP_DURATION_SECONDS cfg)
                       (NUM_CLIPS_TO_GENERATE cfg) (tempdir e) e
                       (snd (download_youtube_video_to_temp url (tempdir e) e w))))) = Inr urls"
  shows "terminal_records (job_writes cfg e url w)
           = [if urls \<noteq> [] then completed_record urls else failed_record no_clips_message]"
    and "\<exists>pre. job_writes cfg e url w
           = map JStr pre
               @ [if urls \<noteq> [] then completed_record urls else failed_record no_clips_message]"
proof -
  from task_queue_cases[of e url w cfg] assms
  obtain pre where q: "log_queue (process_video_task cfg e url w)
          = log_queue w @ map JStr pre
              @ [if urls \<noteq> [] then completed_record urls else failed_record no_clips_message]"
    by auto
  from job_writes_eq[OF q] show "terminal_records (job_writes cfg e url w)
           = [if urls \<noteq> [] then completed_record urls else failed_record no_clips_message]"
    using terminal_records_shape[of
            "if urls \<noteq> [] then completed_record urls else failed_record no_clips_message" pre "[]"]
    by simp
  from job_writes_eq[OF q] show "\<exists>pre. job_writes cfg e url w
           = map JStr pre
               @ [if urls \<noteq> [] then completed_record urls else failed_record no_clips_message]"
    by blast
qed

text \<open>
  A run whose source is acquired and loads, with a frame and a target size that the
  geometry step accepts.
\<close>

lemma task_run:
  assumes acq: "acquire e url w = Inr (Some p)"
    and load: "VideoFileClip e p = Loaded dur fw fh"
    and geom: "0 \<le> fw" "0 < fh" "0 \<le> SHORT_VIDEO_WIDTH cfg" "0 < SHORT_VIDEO_HEIGHT cfg"
  defines "paths \<equiv> rendered_paths e dur (CLIP_DURATION_SECONDS cfg) (NUM_CLIPS_TO_GENERATE cfg)"
  shows "job_phases cfg e url w
           = Acquire # map Render [0..<length (plan dur (CLIP_DURATION_SECONDS cfg)
                                                 (NUM_CLIPS_TO_GENERATE cfg))]
               @ concat (map (\<lambda>q. [Publish q, Cleanup q]) paths) @ [Cleanup p]"
    and "files (process_video_task cfg e url w)
           = (if remove_error e p = None
              then (files w \<union> set paths) - {q \<in> set paths. remove_error e q = None} - {p}
              else (files w \<union> set paths) - {q \<in> set paths. remove_error e q = None})"
    and "distinct paths \<Longrightarrow>
         terminal_records (job_writes cfg e url w)
           = [if List.map_filter (published_url e) paths \<noteq> []
              then completed_record (List.map_filter (published_url e) paths)
              else failed_record no_clips_message]"
proof -
  let ?w1 = "snd (download_youtube_video_to_temp url (tempdir e) e w)"
  let ?g = "generate_short_clips_to_temp cfg p (CLIP_DURATION_SECONDS cfg)
              (NUM_CLIPS_TO_GENERATE cfg) (tempdir e) e ?w1"
  let ?u = "upload_all e paths (snd ?g)"
  note gr = generate_run[OF load geom, of "CLIP_DURATION_SECONDS cfg"
              "NUM_CLIPS_TO_GENERATE cfg" "tempdir e" ?w1]
  have g1: "fst ?g = Inr paths" using gr(1) by (simp add: paths_def rendered_paths_def)
  have g2: "files (snd ?g) = files w \<union> set paths"
    using gr(2) by (simp add: paths_def rendered_paths_def download_world)
  have g3: "map phase_of (steps (snd ?g))
              = map phase_of (steps w) @ Acquire # map Render [0..<length (plan dur
                   (CLIP_DURATION_SECONDS cfg) (NUM_CLIPS_TO_GENERATE cfg))]"
    using gr(3) by (simp add: download_world)
  from upload_all_effects[of e paths "snd ?g"] obtain urls
    where u1: "fst ?u = Inr urls"
      and u2: "files (snd ?u) = files (snd ?g) - {q \<in> set paths. remove_error e q = None}"
      and u3: "steps (snd ?u) = steps (snd ?g) @ concat (map (\<lambda>q. [Upload q, Remove q]) paths)"
    by blast
  have fin: "process_video_task cfg e url w = finish_task e p urls (snd ?u)"
    by (rule task_finished[OF acq g1 u1])
  have ph: "map phase_of (concat (map (\<lambda>q. [Upload q, Remove q]) ps))
              = concat (map (\<lambda>q. [Publish q, Cleanup q]) ps)" for ps
    by (induction ps) simp_all
  have "map phase_of (steps (process_video_task cfg e url w))
          = map phase_of (steps w) @ (Acquire # map Render [0..<length (plan dur
                   (CLIP_DURATION_SECONDS cfg) (NUM_CLIPS_TO_GENERATE cfg))]
               @ concat (map (\<lambda>q. [Publish q, Cleanup q]) paths) @ [Cleanup p])"
    by (simp add: fin finish_task_world u3 g3 ph)
  from job_phases_eq[OF this]
  show "job_phases cfg e url w
           = Acquire # map Render [0..<length (plan dur (CLIP_DURATION_SECONDS cfg)
                                                 (NUM_CLIPS_TO_GENERATE cfg))]
               @ concat (map (\<lambda>q. [Publish q, Cleanup q]) paths) @ [Cleanup p]" .
  show "files (process_video_task cfg e url w)
           = (if remove_error e p = None
              then (files w \<union> set paths) - {q \<in> set paths. remove_error e q = None} - {p}
              else (files w \<union> set paths) - {q \<in> set paths. remove_error e q = None})"
    by (simp add: fin finish_task_world u2 g2)
  show "terminal_records (job_writes cfg e url w)
           = [if List.map_filter (published_url e) paths \<noteq> []
              then completed_record (List.map_filter (published_url e) paths)
              else failed_record no_clips_message]" if d: "distinct paths"
  proof -
    have "set paths \<subseteq> files (snd ?g)" using g2 by simp
    from upload_all_urls[OF d this, of e] u1
    have "urls = List.map_filter (published_url e) paths" by simp
    with task_terminal_finished(1)[OF acq g1 u1] show ?thesis by simp
  qed
qed


section \<open>Polling twice, response shapes, submission\<close>

theorem C10_lines_before_terminal_discarded_witness:
  "log_queue (empty_world\<lparr>log_queue := [JStr ''a'', failed_record ''m'', JStr ''b'']\<rparr>)
     = map JStr [''a''] @ failed_record ''m'' # [JStr ''b'']
   \<and> is_status_dict (failed_record ''m'')
   \<and> get_logs (empty_world\<lparr>log_queue := [JStr ''a'', failed_record ''m'', JStr ''b'']\<rparr>)
       = (failed_record ''m'', empty_world\<lparr>log_queue := [JStr ''b'']\<rparr>)
   \<and> get_logs (empty_world\<lparr>log_queue := [JStr ''b'']\<rparr>)
       = (logging_response [JStr ''b''], empty_world\<lparr>log_queue := []\<rparr>)"
proof -
  let ?w = "empty_world\<lparr>log_queue := [JStr ''a'', failed_record ''m'', JStr ''b'']\<rparr>"
  have q: "log_queue ?w = map JStr [''a''] @ failed_record ''m'' # [JStr ''b'']"
    by simp
  have t: "is_status_dict (failed_record ''m'')"
    by simp
  note c = C10_lines_before_terminal_discarded[OF q t]
  from c[THEN conjunct1] have a: "get_logs ?w = (failed_record ''m'', empty_world\<lparr>log_queue := [JStr ''b'']\<rparr>)"
    by simp
  from c[THEN conjunct2] have "get_logs (snd (get_logs ?w))
                 = (logging_response [JStr ''b''], empty_world\<lparr>log_queue := []\<rparr>)"
    by simp
  then have b: "get_logs (empty_world\<lparr>log_queue := [JStr ''b'']\<rparr>)
                 = (logging_response [JStr ''b''], empty_world\<lparr>log_queue := []\<rparr>)"
    by (simp add: a)
  from q t a b show ?thesis
    by simp
qed

lemma get_logs_first_terminal:
  assumes "log_queue w = map JStr pre @ r # rest" and "is_status_dict r"
  shows "get_logs w = (r, w\<lparr>log_queue := rest\<rparr>)"
  using drain_terminal[where pre="map JStr pre" and logs="[]" and rest=rest,
          OF is_status_dict_JStr assms(2)] assms(1)
  by (simp add: get_logs_def)



lemma acquire_boom: "acquire env_boom url empty_world = Inl ''boom''"
  by (simp add: acquire_def download_youtube_video_to_temp_def run_subprocess_command_def
        env_boom_def env_no_ytdlp_def Let_def)




lemma clear_queue_empty [simp]: "clear_queue q = []"
  by (induction q) simp_all

lemma http_scheme_qualified:
  assumes "prefix ''http://'' ref \<or> prefix ''https://'' ref"
  shows "ref \<noteq> [] \<and> spec_scheme_qualified ref"
proof -
  from assms obtain rest where "ref = ''http://'' @ rest \<or> ref = ''https://'' @ rest"
    by (auto elim!: prefixE)
  then show ?thesis
    by (auto simp: spec_scheme_qualified_def is_alpha_def is_scheme_char_def)
qed

text \<open>
  Claim C9, as the code has it. A submission is answered with the validation error, and
  nothing else happens, exactly when the link does not begin with \<^verbatim>\<open>http://\<close> or
  \<^verbatim>\<open>https://\<close> (the empty link included). Otherwise the queue is reset to three lines, the
  thread is started and the call returns without running the job; such a link is non-empty
  and scheme-qualified.
\<close>

theorem C9_submission_validation:
  assumes "map_of form ''youtube_link'' = Some ref"
  shows "(fst (generate_clips form w) = Inr invalid_link_response)
           = (\<not> (prefix ''http://'' ref \<or> prefix ''https://'' ref))
       \<and> (\<not> (prefix ''http://'' ref \<or> prefix ''https://'' ref) \<longrightarrow>
            generate_clips form w = (Inr invalid_link_response, w))
       \<and> (prefix ''http://'' ref \<or> prefix ''https://'' ref \<longrightarrow>
            fst (generate_clips form w) = Inr processing_response
            \<and> threads (snd (generate_clips form w)) = threads w @ [ref]
            \<and> list_all is_line (log_queue (snd (generate_clips form w)))
            \<and> length (log_queue (snd (generate_clips form w))) = 3
            \<and> files (snd (generate_clips form w)) = files w
            \<and> steps (snd (generate_clips form w)) = steps w
            \<and> ref \<noteq> [] \<and> spec_scheme_qualified ref)"
proof (cases "prefix ''http://'' ref \<or> prefix ''https://'' ref")
  case True
  then have ne: "ref \<noteq> []" by auto
  have "invalid_link_response \<noteq> processing_response"
    by (simp add: invalid_link_response_def processing_response_def)
  with True ne assms http_scheme_qualified[OF True] show ?thesis
    by (simp add: generate_clips_def)
next
  case False
  with assms show ?thesis by (simp add: generate_clips_def)
qed

theorem C9_submission_validation_witness:
  "map_of [(''youtube_link'', ''https://youtu.be/x'')] ''youtube_link'' = Some ''https://youtu.be/x''
   \<and> fst (generate_clips [(''youtube_link'', ''https://youtu.be/x'')] empty_world)
       = Inr processing_response
   \<and> threads (snd (generate_clips [(''youtube_link'', ''https://youtu.be/x'')] empty_world))
       = [''https://youtu.be/x'']
   \<and> map_of [(''youtube_link'', ''youtu.be/x'')] ''youtube_link'' = Some ''youtu.be/x''
   \<and> generate_clips [(''youtube_link'', ''youtu.be/x'')] empty_world
       = (Inr invalid_link_response, empty_world)"
  using C9_submission_validation[of "[(''youtube_link'', ''https://youtu.be/x'')]"
          "''https://youtu.be/x''" empty_world]
        C9_submission_validation[of "[(''youtube_link'', ''youtu.be/x'')]" "''youtu.be/x''"
          empty_world]
  by (simp add: empty_world_def)

theorem C9_submission_validation_counterexample:
  "''ftp://example.com/v.mp4'' \<noteq> []
   \<and> spec_scheme_qualified ''ftp://example.com/v.mp4''
   \<and> generate_clips [(''youtube_link'', ''ftp://example.com/v.mp4'')] empty_world
       = (Inr invalid_link_response, empty_world)"
  by (simp add: generate_clips_def spec_scheme_qualified_def is_alpha_def is_scheme_char_def)

section \<open>Runs of the task\<close>


lemma job_fault_iff:
  "job_fault cfg e url w = Some err
     \<longleftrightarrow> (acquire e url w = Inl err
          \<or> (\<exists>p. acquire e url w = Inr (Some p)
                 \<and> fst (generate_short_clips_to_temp cfg p (CLIP_DURATION_SECONDS cfg)
                          (NUM_CLIPS_TO_GENERATE cfg) (tempdir e) e
                          (snd (download_youtube_video_to_temp url (tempdir e) e w))) = Inl err))"
proof -
  obtain r w1 where d: "download_youtube_video_to_temp url (tempdir e) e w = (r, w1)"
    by (cases "download_youtube_video_to_temp url (tempdir e) e w")
  have up: "\<And>paths w2. \<exists>urls. fst (upload_all e paths w2) = Inr urls"
    using upload_all_effects by blast
  show ?thesis
  proof (cases r)
    case (Inl a)
    with d show ?thesis by (simp add: job_fault_def acquire_def)
  next
    case (Inr po)
    show ?thesis
    proof (cases po)
      case None
      with Inr d show ?thesis by (simp add: job_fault_def acquire_def)
    next
      case (Some p)
      show ?thesis
      proof (cases "p = [] \<or> p \<notin> files w1")
        case True
        with Some Inr d show ?thesis by (auto simp: job_fault_def acquire_def)
      next
        case False
        obtain g w2 where g: "generate_short_clips_to_temp cfg p (CLIP_DURATION_SECONDS cfg)
                          (NUM_CLIPS_TO_GENERATE cfg) (tempdir e) e w1 = (g, w2)"
          by (cases "generate_short_clips_to_temp cfg p (CLIP_DURATION_SECONDS cfg)
                          (NUM_CLIPS_TO_GENERATE cfg) (tempdir e) e w1")
        show ?thesis
        proof (cases g)
          case (Inl a)
          with False Some Inr d g show ?thesis by (auto simp: job_fault_def acquire_def)
        next
          case (Inr paths)
          from up[of paths w2] obtain urls w3 where "upload_all e paths w2 = (Inr urls, w3)"
            by (cases "upload_all e paths w2") auto
          with Inr False Some \<open>r = Inr po\<close> d g show ?thesis
            by (auto simp: job_fault_def acquire_def)
        qed
      qed
    qed
  qed
qed

subsection \<open>The example runs\<close>

lemma app_config_fields [simp]:
  "SHORT_VIDEO_WIDTH app_config = 1080"
  "SHORT_VIDEO_HEIGHT app_config = 1920"
  "CLIP_DURATION_SECONDS app_config = 27"
  "NUM_CLIPS_TO_GENERATE app_config = 5"
  by (simp_all add: app_config_def)

lemma splitlines_dest:
  "splitlines ''[download] Destination: full_video_t0.mp4''
     = [''[download] Destination: full_video_t0.mp4'']"
  by (simp add: splitlines_def is_linebreak_def)

lemma acquire_five: "acquire env_five url world_five = Inr (Some ''/tmp/full_video_t0.mp4'')"
  by (simp add: acquire_def download_youtube_video_to_temp_def run_subprocess_command_def
        env_five_def world_five_def Let_def splitlines_dest contains_def split_second_def
        strip_def is_space_def basename_def path_join_def)


lemma plan_135: "plan 135 27 5 = [(0, 27), (27, 54), (54, 81), (81, 108), (108, 135)]"
  by (simp add: plan_def upt_rec[of _ 5] upt_rec[of _ "Suc _"] clip_window_def)

lemma rendered_five:
  "rendered_paths env_five 135 27 5
     = [''/tmp/short_clip_1_t1.mp4'', ''/tmp/short_clip_2_t1.mp4'', ''/tmp/short_clip_3_t1.mp4'',
        ''/tmp/short_clip_4_t1.mp4'', ''/tmp/short_clip_5_t1.mp4'']"
  by (simp add: rendered_paths_def rendered_indices_def plan_135 upt_rec[of _ 5]
        upt_rec[of _ "Suc _"] env_five_def clip_path_def path_join_def show_nat.simps
        digit_char_def)


lemma published_five:
  "List.map_filter (published_url env_five)
     [''/tmp/short_clip_1_t1.mp4'', ''/tmp/short_clip_2_t1.mp4'', ''/tmp/short_clip_3_t1.mp4'',
      ''/tmp/short_clip_4_t1.mp4'', ''/tmp/short_clip_5_t1.mp4'']
     = [''https://blob/clips/short_clip_1_t1.mp4'', ''https://blob/clips/short_clip_3_t1.mp4'',
        ''https://blob/clips/short_clip_5_t1.mp4'']"
  by (simp add: List.map_filter_simps published_url_def env_five_def basename_def)

lemma load_five: "VideoFileClip env_five p = Loaded 135 1920 1080"
  by (simp add: env_five_def)


lemma run_five_phases:
  "job_phases app_config env_five url world_five
     = [Acquire, Render 0, Render 1, Render 2, Render 3, Render 4,
        Publish ''/tmp/short_clip_1_t1.mp4'', Cleanup ''/tmp/short_clip_1_t1.mp4'',
        Publish ''/tmp/short_clip_2_t1.mp4'', Cleanup ''/tmp/short_clip_2_t1.mp4'',
        Publish ''/tmp/short_clip_3_t1.mp4'', Cleanup ''/tmp/short_clip_3_t1.mp4'',
        Publish ''/tmp/short_clip_4_t1.mp4'', Cleanup ''/tmp/short_clip_4_t1.mp4'',
        Publish ''/tmp/short_clip_5_t1.mp4'', Cleanup ''/tmp/short_clip_5_t1.mp4'',
        Cleanup ''/tmp/full_video_t0.mp4'']"
  using task_run(1)[OF acquire_five load_five, where cfg=app_config and url=url]
  by (simp add: rendered_five plan_135 upt_rec[of _ 5] upt_rec[of _ "Suc _"])

lemma remove_five [simp]: "remove_error env_five p = None"
  by (simp add: env_five_def)

lemma files_world_five [simp]: "files world_five = {''/tmp/full_video_t0.mp4''}"
  by (simp add: world_five_def)

lemma run_five_files: "files (process_video_task app_config env_five url world_five) = {}"
  using task_run(2)[OF acquire_five load_five, where cfg=app_config and url=url]
  by (simp add: rendered_five)

lemma run_five_terminal:
  "terminal_records (job_writes app_config env_five url world_five)
     = [completed_record [''https://blob/clips/short_clip_1_t1.mp4'',
          ''https://blob/clips/short_clip_3_t1.mp4'', ''https://blob/clips/short_clip_5_t1.mp4'']]"
proof -
  have d: "distinct (rendered_paths env_five 135 27 5)"
    by (simp add: rendered_five)
  have "terminal_records (job_writes app_config env_five url world_five)
          = [if List.map_filter (published_url env_five) (rendered_paths env_five 135 27 5) \<noteq> []
             then completed_record
                    (List.map_filter (published_url env_five) (rendered_paths env_five 135 27 5))
             else failed_record no_clips_message]"
    using task_run(3)[OF acquire_five load_five, where cfg=app_config and url=url] d by simp
  then show ?thesis
    by (simp only: rendered_five published_five) simp
qed

subsection \<open>The paths of the rendered clips are distinct\<close>









subsection \<open>What a run writes, by its outcome\<close>

lemma job_fault_acquire_None:
  assumes "acquire e url w = Inr po"
    and "\<And>p. po = Some p \<Longrightarrow>
           \<exists>paths. fst (generate_short_clips_to_temp cfg p (CLIP_DURATION_SECONDS cfg)
                      (NUM_CLIPS_TO_GENERATE cfg) (tempdir e) e
                      (snd (download_youtube_video_to_temp url (tempdir e) e w))) = Inr paths"
  shows "job_fault cfg e url w = None"
proof (cases "job_fault cfg e url w")
  case None
  then show ?thesis .
next
  case (Some err)
  with job_fault_iff[of cfg e url w err] assms(1)
  obtain p where "po = Some p"
    and "fst (generate_short_clips_to_temp cfg p (CLIP_DURATION_SECONDS cfg)
                      (NUM_CLIPS_TO_GENERATE cfg) (tempdir e) e
                      (snd (download_youtube_video_to_temp url (tempdir e) e w))) = Inl err"
    by auto
  with assms(2)[of p] show ?thesis by auto
qed


lemma job_writes_cases:
  "(\<exists>err pre. job_fault cfg e url w = Some err
      \<and> job_writes cfg e url w
          = map JStr pre @ error_record (''An unexpected error occurred: '' @ err)
              # map JStr [''An unexpected error occurred in processing task: '' @ err])
   \<or> (\<exists>pre. job_fault cfg e url w = None \<and> acquire e url w = Inr None
        \<and> job_writes cfg e url w
            = map JStr pre @ failed_record download_failed_message
                # map JStr [download_failed_message])
   \<or> (\<exists>p urls pre. job_fault cfg e url w = None \<and> acquire e url w = Inr (Some p)
        \<and> job_writes cfg e url w
            = map JStr pre
                @ (if urls \<noteq> [] then completed_record urls else failed_record no_clips_message)
                # map JStr [])"
proof -
  from task_queue_cases[of e url w cfg]
  consider (fault) err pre where
      "acquire e url w = Inl err
       \<or> (\<exists>p. acquire e url w = Inr (Some p)
              \<and> fst (generate_short_clips_to_temp cfg p (CLIP_DURATION_SECONDS cfg)
                       (NUM_CLIPS_TO_GENERATE cfg) (tempdir e) e
                       (snd (download_youtube_video_to_temp url (tempdir e) e w))) = Inl err)"
      "log_queue (process_video_task cfg e url w)
          = log_queue w @ map JStr pre
              @ [error_record (''An unexpected error occurred: '' @ err),
                 JStr (''An unexpected error occurred in processing task: '' @ err)]"
    | (nosource) pre where "acquire e url w = Inr None"
      "log_queue (process_video_task cfg e url w)
            = log_queue w @ map JStr pre
                @ [failed_record download_failed_message, JStr download_failed_message]"
    | (finished) p paths urls pre where "acquire e url w = Inr (Some p)"
      "fst (generate_short_clips_to_temp cfg p (CLIP_DURATION_SECONDS cfg)
                 (NUM_CLIPS_TO_GENERATE cfg) (tempdir e) e
                 (snd (download_youtube_video_to_temp url (tempdir e) e w))) = Inr paths"
      "log_queue (process_video_task cfg e url w)
            = log_queue w @ map JStr pre
                @ [if urls \<noteq> [] then completed_record urls else failed_record no_clips_message]"
    by blast
  then show ?thesis
  proof cases
    case fault
    from fault(1) have f: "job_fault cfg e url w = Some err"
      by (simp add: job_fault_iff)
    from job_writes_eq[OF fault(2)]
    have "job_writes cfg e url w
          = map JStr pre @ error_record (''An unexpected error occurred: '' @ err)
              # map JStr [''An unexpected error occurred in processing task: '' @ err]" by simp
    with f show ?thesis by blast
  next
    case nosource
    from job_fault_acquire_None[OF nosource(1)] have f: "job_fault cfg e url w = None" by simp
    from job_writes_eq[OF nosource(2)]
    have "job_writes cfg e url w
            = map JStr pre @ failed_record download_failed_message
                # map JStr [download_failed_message]" by simp
    with f nosource(1) show ?thesis by blast
  next
    case finished
    from job_fault_acquire_None[OF finished(1)] finished(2)
    have f: "job_fault cfg e url w = None" by simp
    from job_writes_eq[OF finished(3)]
    have "job_writes cfg e url w
            = map JStr pre
                @ (if urls \<noteq> [] then completed_record urls else failed_record no_clips_message)
                # map JStr []" by simp
    with f finished(1) show ?thesis by blast
  qed
qed





text \<open>
  Claim C4, as the code has it. The loop over the rendered clips tries to publish each clip
  in turn and then removes its local file, whether or not it was published: the URLs
  returned are exactly those of the clips the blob store took, every clip is followed by
  the attempt to remove it, and afterwards the only clips left on disk are those whose
  removal the file system refused. A clip whose publication failed is not left in place.
\<close>

theorem C4_cleanup_after_publish:
  assumes "distinct paths" and "set paths \<subseteq> files w"
  shows "fst (upload_all e paths w) = Inr (List.map_filter (published_url e) paths)
       \<and> steps (snd (upload_all e paths w))
           = steps w @ concat (map (\<lambda>p. [Upload p, Remove p]) paths)
       \<and> files (snd (upload_all e paths w)) = files w - {p \<in> set paths. remove_error e p = None}
       \<and> (\<forall>p\<in>set paths. published_url e p = None \<and> remove_error e p = None
             \<longrightarrow> p \<notin> files (snd (upload_all e paths w)))"
proof -
  note eff = upload_all_effects[of e paths w]
  from eff have f: "files (snd (upload_all e paths w))
                      = files w - {p \<in> set paths. remove_error e p = None}" by blast
  from eff have s: "steps (snd (upload_all e paths w))
           = steps w @ concat (map (\<lambda>p. [Upload p, Remove p]) paths)" by blast
  from f have "\<forall>p\<in>set paths. published_url e p = None \<and> remove_error e p = None
             \<longrightarrow> p \<notin> files (snd (upload_all e paths w))" by simp
  with upload_all_urls[OF assms, of e] f s show ?thesis by blast
qed

theorem C4_cleanup_after_publish_witness:
  "fst (upload_all env_five [''/tmp/short_clip_1_t1.mp4'', ''/tmp/short_clip_2_t1.mp4'']
          (empty_world\<lparr>files := {''/tmp/short_clip_1_t1.mp4'', ''/tmp/short_clip_2_t1.mp4''}\<rparr>))
     = Inr [''https://blob/clips/short_clip_1_t1.mp4'']
   \<and> steps (snd (upload_all env_five [''/tmp/short_clip_1_t1.mp4'', ''/tmp/short_clip_2_t1.mp4'']
          (empty_world\<lparr>files := {''/tmp/short_clip_1_t1.mp4'', ''/tmp/short_clip_2_t1.mp4''}\<rparr>)))
     = [Upload ''/tmp/short_clip_1_t1.mp4'', Remove ''/tmp/short_clip_1_t1.mp4'',
        Upload ''/tmp/short_clip_2_t1.mp4'', Remove ''/tmp/short_clip_2_t1.mp4'']
   \<and> files (snd (upload_all env_five [''/tmp/short_clip_1_t1.mp4'', ''/tmp/short_clip_2_t1.mp4'']
          (empty_world\<lparr>files := {''/tmp/short_clip_1_t1.mp4'', ''/tmp/short_clip_2_t1.mp4''}\<rparr>)))
     = {}"
proof -
  let ?w = "empty_world\<lparr>files := {''/tmp/short_clip_1_t1.mp4'', ''/tmp/short_clip_2_t1.mp4''}\<rparr>"
  let ?ps = "[''/tmp/short_clip_1_t1.mp4'', ''/tmp/short_clip_2_t1.mp4'']"
  have d: "distinct ?ps" by simp
  have s: "set ?ps \<subseteq> files ?w" by simp
  have p: "List.map_filter (published_url env_five) ?ps = [''https://blob/clips/short_clip_1_t1.mp4'']"
    by (simp add: List.map_filter_simps published_url_def env_five_def basename_def)
  have st: "steps ?w = []" by (simp add: empty_world_def)
  note t = C4_cleanup_after_publish[OF d s, of env_five]
  from t have a: "fst (upload_all env_five ?ps ?w) = Inr [''https://blob/clips/short_clip_1_t1.mp4'']"
    by (simp only: p)
  from t have b: "steps (snd (upload_all env_five ?ps ?w))
     = [Upload ''/tmp/short_clip_1_t1.mp4'', Remove ''/tmp/short_clip_1_t1.mp4'',
        Upload ''/tmp/short_clip_2_t1.mp4'', Remove ''/tmp/short_clip_2_t1.mp4'']"
    by (simp add: st)
  from t have c: "files (snd (upload_all env_five ?ps ?w)) = {}"
    by auto
  from a b c show ?thesis by simp
qed

theorem C4_cleanup_after_publish_counterexample:
  "published_url env_five ''/tmp/short_clip_2_t1.mp4'' = None
   \<and> published_url env_five ''/tmp/short_clip_4_t1.mp4'' = None
   \<and> terminal_records (job_writes app_config env_five ''https://youtu.be/x'' world_five)
       = [completed_record [''https://blob/clips/short_clip_1_t1.mp4'',
            ''https://blob/clips/short_clip_3_t1.mp4'', ''https://blob/clips/short_clip_5_t1.mp4'']]
   \<and> files (process_video_task app_config env_five ''https://youtu.be/x'' world_five) = {}
   \<and> job_phases app_config env_five ''https://youtu.be/x'' world_five
       = [Acquire, Render 0, Render 1, Render 2, Render 3, Render 4,
          Publish ''/tmp/short_clip_1_t1.mp4'', Cleanup ''/tmp/short_clip_1_t1.mp4'',
          Publish ''/tmp/short_clip_2_t1.mp4'', Cleanup ''/tmp/short_clip_2_t1.mp4'',
          Publish ''/tmp/short_clip_3_t1.mp4'', Cleanup ''/tmp/short_clip_3_t1.mp4'',
          Publish ''/tmp/short_clip_4_t1.mp4'', Cleanup ''/tmp/short_clip_4_t1.mp4'',
          Publish ''/tmp/short_clip_5_t1.mp4'', Cleanup ''/tmp/short_clip_5_t1.mp4'',
          Cleanup ''/tmp/full_video_t0.mp4'']"
proof -
  have "published_url env_five ''/tmp/short_clip_2_t1.mp4'' = None"
    and "published_url env_five ''/tmp/short_clip_4_t1.mp4'' = None"
    by (simp_all add: published_url_def env_five_def basename_def)
  with run_five_terminal[of "''https://youtu.be/x''"] run_five_files[of "''https://youtu.be/x''"]
    run_five_phases[of "''https://youtu.be/x''"]
  show ?thesis by (simp only: simp_thms)
qed








subsection \<open>The items of the queue and the responses of a poll\<close>

lemma str_of_JStr [simp]: "map str_of (map JStr us) = us"
  by (induction us) simp_all

lemma queued_by_program_line [simp]: "queued_by_program (JStr s)"
  by (simp add: queued_by_program_def)

lemma queued_by_program_records [simp]:
  "queued_by_program (failed_record m)"
  "queued_by_program (error_record m)"
  "queued_by_program (completed_record urls)"
  by (simp_all add: queued_by_program_def field_def strs_of_def failed_record_def
        error_record_def completed_record_def)

lemma queued_by_program_lines [simp]: "list_all queued_by_program (map JStr ls)"
  by (induction ls) simp_all

lemma queued_by_program_cases:
  assumes "queued_by_program x"
  shows "(\<exists>s. x = JStr s) \<or> (\<exists>m. x = failed_record m) \<or> (\<exists>m. x = error_record m)
         \<or> (\<exists>urls. x = completed_record urls)"
proof (cases "is_line x")
  case True
  then show ?thesis by (cases x) simp_all
next
  case False
  with assms show ?thesis unfolding queued_by_program_def by blast
qed

lemma drain_shapes:
  assumes "list_all queued_by_program q"
  shows "((\<exists>lines. fst (drain (map JStr logs) q) = logging_response (map JStr lines))
          \<or> (\<exists>urls. fst (drain (map JStr logs) q) = completed_record urls)
          \<or> (\<exists>m. fst (drain (map JStr logs) q) = failed_record m)
          \<or> (\<exists>m. fst (drain (map JStr logs) q) = error_record m))
       \<and> list_all queued_by_program (snd (drain (map JStr logs) q))"
  using assms
proof (induction q arbitrary: logs)
  case Nil
  show ?case by auto
next
  case (Cons x q)
  from Cons.prems have x: "queued_by_program x" and q: "list_all queued_by_program q"
    by simp_all
  from queued_by_program_cases[OF x]
  consider (line) s where "x = JStr s" | (failed) m where "x = failed_record m"
    | (error) m where "x = error_record m" | (completed) urls where "x = completed_record urls"
    by blast
  then show ?case
  proof cases
    case line
    have "map JStr logs @ [x] = map JStr (logs @ [s])" using line by simp
    with Cons.IH[OF q, of "logs @ [s]"] line show ?thesis by simp
  next
    case failed
    with q show ?thesis by auto
  next
    case error
    with q show ?thesis by auto
  next
    case completed
    with q show ?thesis by auto
  qed
qed

lemma job_queue_eq:
  "log_queue (process_video_task cfg e url w) = log_queue w @ job_writes cfg e url w"
proof -
  from task_queue_cases[of e url w cfg]
  obtain xs where q: "log_queue (process_video_task cfg e url w) = log_queue w @ xs"
    by blast
  from job_writes_eq[OF q] q show ?thesis by simp
qed

lemma job_writes_shape:
  "\<exists>pre r post. job_writes cfg e url w = map JStr pre @ r # map JStr post
      \<and> is_status_dict r \<and> queued_by_program r"
proof -
  from job_writes_cases[of cfg e url w]
  consider (fault) err pre where
      "job_writes cfg e url w
          = map JStr pre @ error_record (''An unexpected error occurred: '' @ err)
              # map JStr [''An unexpected error occurred in processing task: '' @ err]"
    | (nosource) pre where
      "job_writes cfg e url w
            = map JStr pre @ failed_record download_failed_message
                # map JStr [download_failed_message]"
    | (finished) urls pre where
      "job_writes cfg e url w
            = map JStr pre
                @ (if urls \<noteq> [] then completed_record urls else failed_record no_clips_message)
                # map JStr []"
    by blast
  then show ?thesis
  proof cases
    case fault
    have "is_status_dict (error_record (''An unexpected error occurred: '' @ err))"
      and "queued_by_program (error_record (''An unexpected error occurred: '' @ err))"
      by simp_all
    with fault show ?thesis by blast
  next
    case nosource
    have "is_status_dict (failed_record download_failed_message)"
      and "queued_by_program (failed_record download_failed_message)"
      by simp_all
    with nosource show ?thesis by blast
  next
    case finished
    have "is_status_dict (if urls \<noteq> [] then completed_record urls
                          else failed_record no_clips_message)"
      and "queued_by_program (if urls \<noteq> [] then completed_record urls
                              else failed_record no_clips_message)"
      by simp_all
    with finished show ?thesis by blast
  qed
qed

lemma job_queue_program:
  assumes "list_all queued_by_program (log_queue w)"
  shows "list_all queued_by_program (log_queue (process_video_task cfg e url w))"
proof -
  from job_writes_shape[of cfg e url w]
  obtain pre r post where "job_writes cfg e url w = map JStr pre @ r # map JStr post"
    and "queued_by_program r" by blast
  with assms show ?thesis by (simp add: job_queue_eq)
qed

lemma submit_queue_program:
  "list_all queued_by_program (log_queue (snd (generate_clips form w))) =
     (fst (generate_clips form w) = Inr processing_response
      \<or> list_all queued_by_program (log_queue w))"
proof -
  have ne: "invalid_link_response \<noteq> processing_response"
    by (simp add: invalid_link_response_def processing_response_def)
  show ?thesis
    using ne by (auto simp: generate_clips_def split: option.splits)
qed

lemma poll_after_run:
  assumes "log_queue w = []"
  shows "[fst (get_logs (process_video_task cfg e url w))]
           = terminal_records (job_writes cfg e url w)"
proof -
  from job_writes_shape[of cfg e url w]
  obtain pre r post where j: "job_writes cfg e url w = map JStr pre @ r # map JStr post"
    and r: "is_status_dict r" by blast
  from assms j have q: "log_queue (process_video_task cfg e url w)
                          = map JStr pre @ r # map JStr post"
    by (simp add: job_queue_eq)
  from get_logs_first_terminal[OF q r] terminal_records_shape[OF r, of pre post] j
  show ?thesis by simp
qed

text \<open>
  Claim C8, as the code has it. The queue only ever holds what the program puts into it:
  plain lines and the three records of process\_video\_task; a run of the task, a
  submission and a poll keep it so. A poll of such a queue returns one of four dicts, all
  keyed by \<^verbatim>\<open>status\<close>: \<^verbatim>\<open>logging\<close> with the drained lines under \<^verbatim>\<open>logs\<close>, \<^verbatim>\<open>completed\<close>
  with the URLs under \<^verbatim>\<open>clips\<close>, and \<^verbatim>\<open>failed\<close> or \<^verbatim>\<open>error\<close> with a string under
  \<^verbatim>\<open>message\<close>.
\<close>

theorem C8_poll_response_shape:
  assumes "list_all queued_by_program (log_queue w)"
  shows "((\<exists>lines. fst (get_logs w)
                     = JDict [(''status'', JStr ''logging''), (''logs'', JList (map JStr lines))])
          \<or> (\<exists>urls. fst (get_logs w)
                     = JDict [(''status'', JStr ''completed''), (''clips'', JList (map JStr urls))])
          \<or> (\<exists>m. fst (get_logs w)
                     = JDict [(''status'', JStr ''failed''), (''message'', JStr m)])
          \<or> (\<exists>m. fst (get_logs w)
                     = JDict [(''status'', JStr ''error''), (''message'', JStr m)]))
       \<and> list_all queued_by_program (log_queue (snd (get_logs w)))
       \<and> list_all queued_by_program (log_queue (process_video_task cfg e url w))
       \<and> list_all queued_by_program (log_queue (snd (generate_clips form w)))"
proof -
  from drain_shapes[OF assms, of "[]"]
  have a: "(\<exists>lines. fst (get_logs w)
                     = JDict [(''status'', JStr ''logging''), (''logs'', JList (map JStr lines))])
          \<or> (\<exists>urls. fst (get_logs w)
                     = JDict [(''status'', JStr ''completed''), (''clips'', JList (map JStr urls))])
          \<or> (\<exists>m. fst (get_logs w)
                     = JDict [(''status'', JStr ''failed''), (''message'', JStr m)])
          \<or> (\<exists>m. fst (get_logs w)
                     = JDict [(''status'', JStr ''error''), (''message'', JStr m)])"
    and b: "list_all queued_by_program (log_queue (snd (get_logs w)))"
    by (simp_all add: get_logs_def case_prod_beta logging_response_def completed_record_def
          failed_record_def error_record_def)
  from assms have c: "list_all queued_by_program (log_queue (snd (generate_clips form w)))"
    by (simp add: submit_queue_program)
  from a b c job_queue_program[OF assms] show ?thesis by blast
qed

theorem C8_poll_response_shape_witness:
  "fst (get_logs (process_video_task app_config env_five ''https://youtu.be/x'' world_five))
     = JDict [(''status'', JStr ''completed''),
              (''clips'', JList [JStr ''https://blob/clips/short_clip_1_t1.mp4'',
                                JStr ''https://blob/clips/short_clip_3_t1.mp4'',
                                JStr ''https://blob/clips/short_clip_5_t1.mp4''])]
   \<and> list_all queued_by_program
        (log_queue (process_video_task app_config env_five ''https://youtu.be/x'' world_five))"
proof -
  have q: "list_all queued_by_program (log_queue world_five)"
    by (simp add: world_five_def)
  have l: "log_queue world_five = []"
    by (simp add: world_five_def)
  from C8_poll_response_shape[OF q, of app_config env_five "''https://youtu.be/x''"]
  have a: "list_all queued_by_program
        (log_queue (process_video_task app_config env_five ''https://youtu.be/x'' world_five))"
    by blast
  from poll_after_run[OF l, of app_config env_five "''https://youtu.be/x''"]
    run_five_terminal[of "''https://youtu.be/x''"]
  have "fst (get_logs (process_video_task app_config env_five ''https://youtu.be/x'' world_five))
     = completed_record [''https://blob/clips/short_clip_1_t1.mp4'',
          ''https://blob/clips/short_clip_3_t1.mp4'', ''https://blob/clips/short_clip_5_t1.mp4'']"
    by simp
  with a show ?thesis by (simp add: completed_record_def)
qed

theorem C8_poll_response_shape_counterexample:
  "fst (get_logs (process_video_task app_config env_five ''https://youtu.be/x'' world_five))
     = JDict [(''status'', JStr ''completed''),
              (''clips'', JList [JStr ''https://blob/clips/short_clip_1_t1.mp4'',
                                JStr ''https://blob/clips/short_clip_3_t1.mp4'',
                                JStr ''https://blob/clips/short_clip_5_t1.mp4''])]
   \<and> field (fst (get_logs (process_video_task app_config env_five ''https://youtu.be/x''
                             world_five))) ''urls'' = None
   \<and> \<not> spec_poll_shape
          (fst (get_logs (process_video_task app_config env_five ''https://youtu.be/x''
                            world_five)))
   \<and> fst (get_logs (process_video_task app_config env_boom ''https://youtu.be/x'' empty_world))
     = JDict [(''status'', JStr ''error''),
              (''message'', JStr ''An unexpected error occurred: boom'')]
   \<and> \<not> spec_poll_shape
          (fst (get_logs (process_video_task app_config env_boom ''https://youtu.be/x''
                            empty_world)))"
proof -
  have l: "log_queue world_five = []"
    by (simp add: world_five_def)
  have l': "log_queue empty_world = []"
    by (simp add: empty_world_def)
  from poll_after_run[OF l, of app_config env_five "''https://youtu.be/x''"]
    run_five_terminal[of "''https://youtu.be/x''"]
  have a: "fst (get_logs (process_video_task app_config env_five ''https://youtu.be/x''
                            world_five))
     = JDict [(''status'', JStr ''completed''),
              (''clips'', JList [JStr ''https://blob/clips/short_clip_1_t1.mp4'',
                                JStr ''https://blob/clips/short_clip_3_t1.mp4'',
                                JStr ''https://blob/clips/short_clip_5_t1.mp4''])]"
    by (simp add: completed_record_def)
  have f: "job_fault app_config env_boom ''https://youtu.be/x'' empty_world = Some ''boom''"
    by (simp add: job_fault_iff acquire_boom)
  from task_terminal_fault[of env_boom "''https://youtu.be/x''" empty_world "''boom''" app_config]
    acquire_boom
  have "terminal_records (job_writes app_config env_boom ''https://youtu.be/x'' empty_world)
          = [error_record ''An unexpected error occurred: boom'']"
    by simp
  with poll_after_run[OF l', of app_config env_boom "''https://youtu.be/x''"]
  have b: "fst (get_logs (process_video_task app_config env_boom ''https://youtu.be/x''
                            empty_world))
     = JDict [(''status'', JStr ''error''),
              (''message'', JStr ''An unexpected error occurred: boom'')]"
    by (simp add: error_record_def)
  show ?thesis
    unfolding a b
    by (simp add: field_def spec_poll_shape_def spec_idle_def spec_completed_def
          spec_failure_def state_of_def is_string_list_def)
qed

end
